theory Spec2Isabelle
  imports Main "HOL-Library.Char_ord" "HOL-Library.List_Lexorder" "HOL-Library.Sublist"
    "HOL-Library.Signed_Division"
begin

section \<open>Header ordering policy (\<open>headers.Less\<close>, main.go lines 602-636)\<close>

text \<open>
  Go strings are byte sequences and \<open>a < b\<close> on them is the bytewise lexicographic
  comparison; \<open>string\<close> with the character order of \<open>Char_ord\<close> and the list order of
  \<open>List_Lexorder\<close> is the same order.
\<close>

type_synonym headers = "string list"

text \<open>The closure \<open>endtoend\<close> of \<open>Less\<close>: the switch over the eight hop-by-hop names.\<close>

definition endtoend :: "string \<Rightarrow> bool" where
  "endtoend n =
     (if n = ''Connection'' \<or> n = ''Keep-Alive'' \<or> n = ''Proxy-Authenticate''
         \<or> n = ''Proxy-Authorization'' \<or> n = ''TE'' \<or> n = ''Trailers''
         \<or> n = ''Transfer-Encoding'' \<or> n = ''Upgrade''
      then False else True)"

text \<open>The body of \<open>Less\<close> once \<open>a, b := h[i], h[j]\<close> have been read.\<close>

definition lessNames :: "string \<Rightarrow> string \<Rightarrow> bool" where
  "lessNames a b =
     (if a = ''Server'' then True
      else if b = ''Server'' then False
      else (let x = endtoend a; y = endtoend b in
            if x = y then a < b else x))"

text \<open>\<open>Less\<close> itself: an index out of range panics in Go, which is \<open>None\<close> here.\<close>

definition Less :: "headers \<Rightarrow> nat \<Rightarrow> nat \<Rightarrow> bool option" where
  "Less h i j =
     (if i < length h \<and> j < length h then Some (lessNames (h ! i) (h ! j)) else None)"

text \<open>
  The order that the comparator induces on names: \<open>a\<close> is placed no later than \<open>b\<close>
  when they are the same name or the comparator puts \<open>a\<close> first.
\<close>

definition headerLe :: "string \<Rightarrow> string \<Rightarrow> bool" where
  "headerLe a b = (a = b \<or> lessNames a b)"

definition hopByHopNames :: "string list" where
  "hopByHopNames = [''Connection'', ''Keep-Alive'', ''Proxy-Authenticate'',
     ''Proxy-Authorization'', ''TE'', ''Trailers'', ''Transfer-Encoding'', ''Upgrade'']"

section \<open>The timing diagram (\<open>printTemplate\<close>, main.go lines 41-74 and 458-486)\<close>

record Timing =
  DNS :: int
  TCP :: int
  TLS :: int
  Server :: int
  Transfer :: int
  Lookup :: int
  Connect :: int
  PreTransfer :: int
  StartTransfer :: int
  Total :: int

definition httpsTemplate :: string where
  "httpsTemplate =
     ''  DNS Lookup   TCP Connection   TLS Handshake   Server Processing   Content Transfer\<newline>'' @
     ''[    %>DNS  |         %>TCP  |        %>TLS  |         %>Server  |      %>Transfer  ]\<newline>'' @
     ''            |                |               |                   |                  |\<newline>'' @
     ''   namelookup:%<Lookup       |               |                   |                  |\<newline>'' @
     ''                       connect:%<Connect     |                   |                  |\<newline>'' @
     ''                                   pretransfer:%<PreTransfer     |                  |\<newline>'' @
     ''                                                     starttransfer:%<StartTransfer  |\<newline>'' @
     ''                                                                                total:%<Total\<newline>''"

definition httpTemplate :: string where
  "httpTemplate =
     ''  DNS Lookup   TCP Connection   Server Processing   Content Transfer\<newline>'' @
     ''[    %>DNS  |         %>TCP  |         %>Server  |      %>Transfer  ]\<newline>'' @
     ''            |                |                   |                  |\<newline>'' @
     ''   namelookup:%<Lookup       |                   |                  |\<newline>'' @
     ''                       connect:%<Connect         |                  |\<newline>'' @
     ''                                     starttransfer:%<StartTransfer  |\<newline>'' @
     ''                                                                total:%<Total\<newline>''"

datatype panic =
    IndexOutOfRange
  | SliceBoundsOutOfRange
  | InvalidTemplateVariable string
  | InvalidDirection char

fun IndexByte :: "string \<Rightarrow> char \<Rightarrow> nat option" where
  "IndexByte [] c = None"
| "IndexByte (x # xs) c = (if x = c then Some 0 else map_option Suc (IndexByte xs c))"

definition isLetter :: "char \<Rightarrow> bool" where
  "isLetter c = ((CHR ''a'' \<le> c \<and> c \<le> CHR ''z'') \<or> (CHR ''A'' \<le> c \<and> c \<le> CHR ''Z''))"

function scanEnd :: "string \<Rightarrow> nat \<Rightarrow> nat" where
  "scanEnd b e = (if e < length b \<and> isLetter (b ! e) then scanEnd b (Suc e) else e)"
  by pat_completeness auto
termination
  by (relation "measure (\<lambda>(b, e). length b - e)") auto

declare scanEnd.simps [simp del]

definition FieldByName :: "Timing \<Rightarrow> string \<Rightarrow> int option" where
  "FieldByName vars vnam =
     (if vnam = ''DNS'' then Some (DNS vars)
      else if vnam = ''TCP'' then Some (TCP vars)
      else if vnam = ''TLS'' then Some (TLS vars)
      else if vnam = ''Server'' then Some (Server vars)
      else if vnam = ''Transfer'' then Some (Transfer vars)
      else if vnam = ''Lookup'' then Some (Lookup vars)
      else if vnam = ''Connect'' then Some (Connect vars)
      else if vnam = ''PreTransfer'' then Some (PreTransfer vars)
      else if vnam = ''StartTransfer'' then Some (StartTransfer vars)
      else if vnam = ''Total'' then Some (Total vars)
      else None)"

definition digitChar :: "nat \<Rightarrow> char" where
  "digitChar d = ''0123456789'' ! (d mod 10)"

function formatUint :: "nat \<Rightarrow> string" where
  "formatUint n = (if n < 10 then [digitChar n] else formatUint (n div 10) @ [digitChar (n mod 10)])"
  by pat_completeness auto
termination
  by (relation "measure id") auto

declare formatUint.simps [simp del]

definition Itoa :: "int \<Rightarrow> string" where
  "Itoa i = (if i < 0 then CHR ''-'' # formatUint (nat (- i)) else formatUint (nat i))"

definition CyanString :: "bool \<Rightarrow> string \<Rightarrow> string" where
  "CyanString noColor s = (if noColor then s else CHR 0x1B # ''[36m'' @ s @ CHR 0x1B # ''[0m'')"

definition percents :: "string \<Rightarrow> nat" where
  "percents b = length (filter (\<lambda>c. c = CHR ''%'') b)"

lemma IndexByte_Some: "IndexByte b c = Some i \<Longrightarrow> i < length b \<and> b ! i = c"
  by (induction b arbitrary: i) (auto split: if_splits)

lemma percents_append [simp]: "percents (xs @ ys) = percents xs + percents ys"
  by (simp add: percents_def)

lemma percents_replicate_space [simp]: "percents (replicate n CHR '' '') = 0"
  by (simp add: percents_def)

lemma percents_take_drop: "m \<le> n \<Longrightarrow> percents (take m xs) + percents (drop n xs) \<le> percents xs"
proof -
  assume mn: "m \<le> n"
  have "xs = take m xs @ take (n - m) (drop m xs) @ drop n xs"
    using mn by (metis add_diff_cancel_left' append_take_drop_id drop_drop le_Suc_ex add.commute)
  then have "percents xs = percents (take m xs) + percents (take (n - m) (drop m xs)) + percents (drop n xs)"
    by (metis percents_append add.assoc)
  then show ?thesis by simp
qed

lemma percents_blank_lt:
  assumes "i < length b" "b ! i = CHR ''%''" "i < e"
  shows "percents (take i b @ replicate (e - i) CHR '' '' @ drop e b) < percents b"
proof -
  have b: "b = take i b @ b ! i # drop (Suc i) b"
    using assms(1) by (simp add: id_take_nth_drop)
  have "percents b = percents (take i b) + 1 + percents (drop (Suc i) b)"
    by (subst b) (simp add: percents_def assms(2))
  moreover have "percents (drop e b) \<le> percents (drop (Suc i) b)"
    using percents_take_drop [of 0 "e - Suc i" "drop (Suc i) b"] assms(3) by simp
  ultimately show ?thesis by simp
qed

lemma digitChar_percent: "digitChar d \<noteq> CHR ''%''"
proof -
  have "d mod 10 < 10" by simp
  then have "''0123456789'' ! (d mod 10) \<in> set ''0123456789''"
    by (intro nth_mem) simp
  then show ?thesis unfolding digitChar_def by auto
qed

lemma percents_formatUint [simp]: "percents (formatUint n) = 0"
proof (induction n rule: formatUint.induct)
  case (1 n)
  then show ?case
    by (subst formatUint.simps) (simp add: percents_def digitChar_percent)
qed

lemma percents_Nil [simp]: "percents [] = 0"
  by (simp add: percents_def)

lemma percents_Cons [simp]: "percents (c # xs) = (if c = CHR ''%'' then 1 else 0) + percents xs"
  by (simp add: percents_def)

lemma percents_Itoa [simp]: "percents (Itoa i) = 0"
  by (simp add: Itoa_def)

lemma percents_CyanString [simp]: "percents (CyanString nc (Itoa i @ ''ms'')) = 0"
  by (simp add: CyanString_def)

function printLoop :: "bool \<Rightarrow> Timing \<Rightarrow> string \<Rightarrow> panic + string" where
  "printLoop noColor vars b =
     (case IndexByte b CHR ''%'' of
        None \<Rightarrow> Inr b
      | Some idx \<Rightarrow>
          if length b \<le> idx + 1 then Inl IndexOutOfRange
          else
            let dir = b ! (idx + 1);
                e = scanEnd b (idx + 2);
                vnam = take (e - (idx + 2)) (drop (idx + 2) b);
                b1 = take idx b @ replicate (e - idx) CHR '' '' @ drop e b
            in case FieldByName vars vnam of
                 None \<Rightarrow> Inl (InvalidTemplateVariable vnam)
               | Some val \<Rightarrow>
                   let v = Itoa val @ ''ms'';
                       vlen = length v;
                       cv = CyanString noColor v
                   in if dir = CHR ''>'' then
                        (if e < vlen then Inl SliceBoundsOutOfRange
                         else printLoop noColor vars (take (e - vlen) b1 @ cv @ drop e b1))
                      else if dir = CHR ''<'' then
                        (if length b1 < idx + vlen then Inl SliceBoundsOutOfRange
                         else printLoop noColor vars (take idx b1 @ cv @ drop (idx + vlen) b1))
                      else Inl (InvalidDirection dir))"
  by pat_completeness auto

lemma scanEnd_ge: "e \<le> scanEnd b e"
  by (induction b e rule: scanEnd.induct) (subst scanEnd.simps, auto)

lemma scanEnd_le: "e \<le> length b \<Longrightarrow> scanEnd b e \<le> length b"
  by (induction b e rule: scanEnd.induct) (subst scanEnd.simps, auto)


lemma printLoop_measure:
  assumes "IndexByte b CHR ''%'' = Some idx" "m \<le> n"
  shows "percents (take m (take idx b @ replicate (scanEnd b (idx + 2) - idx) CHR '' '' @ drop (scanEnd b (idx + 2)) b)
            @ CyanString nc (Itoa val @ ''ms'')
            @ drop n (take idx b @ replicate (scanEnd b (idx + 2) - idx) CHR '' '' @ drop (scanEnd b (idx + 2)) b))
         < percents b"
proof -
  let ?e = "scanEnd b (idx + 2)"
  let ?b1 = "take idx b @ replicate (?e - idx) CHR '' '' @ drop ?e b"
  have "idx < ?e" using scanEnd_ge [of "idx + 2" b] by simp
  then have "percents ?b1 < percents b"
    using IndexByte_Some [OF assms(1)] percents_blank_lt by blast
  moreover have "percents (take m ?b1) + percents (drop n ?b1) \<le> percents ?b1"
    using assms(2) by (rule percents_take_drop)
  ultimately show ?thesis
    using percents_CyanString [of nc val] by (simp only: percents_append)
qed

termination printLoop
proof (relation "measure (\<lambda>(noColor, vars, b). percents b)", goal_cases)
  case 1
  show ?case by simp
next
  case (2 noColor vars b idx dir e vnam b1 val v vlen cv)
  then show ?case
    using printLoop_measure [of b idx "e - vlen" e noColor val] by simp
next
  case (3 noColor vars b idx dir e vnam b1 val v vlen cv)
  then show ?case
    using printLoop_measure [of b idx idx "idx + vlen" noColor val] by simp
qed

declare printLoop.simps [simp del]

definition printTemplate :: "bool \<Rightarrow> string \<Rightarrow> Timing \<Rightarrow> panic + string" where
  "printTemplate noColor tmpl vars = printLoop noColor vars tmpl"

definition fixedTiming :: Timing where
  "fixedTiming = \<lparr>DNS = 5, TCP = 10, TLS = 20, Server = 50, Transfer = 100,
     Lookup = 5, Connect = 15, PreTransfer = 35, StartTransfer = 85, Total = 185\<rparr>"



subsection \<open>Templates as literal text and placeholders\<close>

datatype piece = Lit string | Hole char string

fun flatten :: "piece list \<Rightarrow> string" where
  "flatten [] = []"
| "flatten (Lit s # ps) = s @ flatten ps"
| "flatten (Hole d n # ps) = CHR ''%'' # d # n @ flatten ps"

fun fill :: "bool \<Rightarrow> Timing \<Rightarrow> piece list \<Rightarrow> string" where
  "fill nc vars [] = []"
| "fill nc vars (Lit s # ps) = s @ fill nc vars ps"
| "fill nc vars (Hole d n # ps) =
     (case FieldByName vars n of
        None \<Rightarrow> []
      | Some val \<Rightarrow>
          let v = Itoa val @ ''ms'';
              pad = replicate (2 + length n - length v) CHR '' ''
          in (if d = CHR ''>'' then pad @ CyanString nc v else CyanString nc v @ pad)
             @ fill nc vars ps)"

fun startsNonLetter :: "piece list \<Rightarrow> bool" where
  "startsNonLetter [] = True"
| "startsNonLetter (Lit [] # ps) = startsNonLetter ps"
| "startsNonLetter (Lit (c # s) # ps) = (\<not> isLetter c)"
| "startsNonLetter (Hole d n # ps) = True"

fun fits :: "Timing \<Rightarrow> piece list \<Rightarrow> bool" where
  "fits vars [] = True"
| "fits vars (Lit s # ps) = (CHR ''%'' \<notin> set s \<and> fits vars ps)"
| "fits vars (Hole d n # ps) =
     ((d = CHR ''>'' \<or> d = CHR ''<'') \<and> list_all isLetter n
      \<and> (case FieldByName vars n of
            None \<Rightarrow> False
          | Some val \<Rightarrow> length (Itoa val @ ''ms'') \<le> 2 + length n)
      \<and> startsNonLetter ps \<and> fits vars ps)"

definition httpsPieces :: "piece list" where
  "httpsPieces =
    [Lit ''  DNS Lookup   TCP Connection   TLS Handshake   Server Processing   Content Transfer\<newline>[    '',
     Hole CHR ''>'' ''DNS'',
     Lit ''  |         '',
     Hole CHR ''>'' ''TCP'',
     Lit ''  |        '',
     Hole CHR ''>'' ''TLS'',
     Lit ''  |         '',
     Hole CHR ''>'' ''Server'',
     Lit ''  |      '',
     Hole CHR ''>'' ''Transfer'',
     Lit ''  ]\<newline>            |                |               |                   |                  |\<newline>   namelookup:'',
     Hole CHR ''<'' ''Lookup'',
     Lit ''       |               |                   |                  |\<newline>                       connect:'',
     Hole CHR ''<'' ''Connect'',
     Lit ''     |                   |                  |\<newline>                                   pretransfer:'',
     Hole CHR ''<'' ''PreTransfer'',
     Lit ''     |                  |\<newline>                                                     starttransfer:'',
     Hole CHR ''<'' ''StartTransfer'',
     Lit ''  |\<newline>                                                                                total:'',
     Hole CHR ''<'' ''Total'',
     Lit ''\<newline>'']"

definition httpPieces :: "piece list" where
  "httpPieces =
    [Lit ''  DNS Lookup   TCP Connection   Server Processing   Content Transfer\<newline>[    '',
     Hole CHR ''>'' ''DNS'',
     Lit ''  |         '',
     Hole CHR ''>'' ''TCP'',
     Lit ''  |         '',
     Hole CHR ''>'' ''Server'',
     Lit ''  |      '',
     Hole CHR ''>'' ''Transfer'',
     Lit ''  ]\<newline>            |                |                   |                  |\<newline>   namelookup:'',
     Hole CHR ''<'' ''Lookup'',
     Lit ''       |                   |                  |\<newline>                       connect:'',
     Hole CHR ''<'' ''Connect'',
     Lit ''         |                  |\<newline>                                     starttransfer:'',
     Hole CHR ''<'' ''StartTransfer'',
     Lit ''  |\<newline>                                                                total:'',
     Hole CHR ''<'' ''Total'',
     Lit ''\<newline>'']"

text \<open>
  Reading the printed diagram: \<open>visible\<close> drops the terminal escape sequences
  (from the escape byte through the next \<open>m\<close>), and \<open>numericTokens\<close> lists the
  maximal runs of letters and digits that begin with a digit, left to right.
\<close>

definition isDigit :: "char \<Rightarrow> bool" where
  "isDigit c = (CHR ''0'' \<le> c \<and> c \<le> CHR ''9'')"

primrec visibleFrom :: "bool \<Rightarrow> string \<Rightarrow> string" where
  "visibleFrom esc [] = []"
| "visibleFrom esc (x # xs) =
     (if esc then visibleFrom (x \<noteq> CHR ''m'') xs
      else if x = CHR 0x1B then visibleFrom True xs
      else x # visibleFrom False xs)"

definition visible :: "string \<Rightarrow> string" where
  "visible s = visibleFrom False s"

primrec splitTokens :: "string \<Rightarrow> string list" where
  "splitTokens [] = [[]]"
| "splitTokens (x # xs) =
     (case splitTokens xs of
        [] \<Rightarrow> [[x]]
      | t # ts \<Rightarrow> if isLetter x \<or> isDigit x then (x # t) # ts else [] # t # ts)"

definition numericTokens :: "string \<Rightarrow> string list" where
  "numericTokens s =
     filter (\<lambda>t. case t of [] \<Rightarrow> False | c # _ \<Rightarrow> isDigit c) (splitTokens s)"

section \<open>The trace collector (\<open>visit\<close>, main.go lines 341-395, and \<open>msSince\<close>)\<close>

text \<open>
  A \<open>time.Time\<close> taken by \<open>time.Now()\<close> is its reading of the monotonic clock, in
  nanoseconds; the zero \<open>time.Time\<close> of an unset variable is \<open>None\<close>. A
  \<open>time.Duration\<close> is a count of nanoseconds in 64 bits, and \<open>Time.Sub\<close> saturates at
  the largest and smallest duration. The zero time lies more than the largest duration
  before any reading of the clock, so \<open>Sub\<close> from it is the largest duration.
\<close>

type_synonym instant = int
type_synonym duration = int

definition Millisecond :: duration where
  "Millisecond = 1000000"

definition Second :: duration where
  "Second = 1000 * Millisecond"

definition maxDuration :: duration where
  "maxDuration = 2 ^ 63 - 1"

definition minDuration :: duration where
  "minDuration = - (2 ^ 63)"

definition Sub :: "instant \<Rightarrow> instant option \<Rightarrow> duration" where
  "Sub now t =
     (case t of
        None \<Rightarrow> maxDuration
      | Some u \<Rightarrow>
          if now - u > maxDuration then maxDuration
          else if now - u < minDuration then minDuration
          else now - u)"

text \<open>\<open>msSince\<close>, with the reading of \<open>time.Now()\<close> passed in; Go's \<open>/\<close> truncates.\<close>

definition msSince :: "instant \<Rightarrow> instant option \<Rightarrow> int" where
  "msSince now t = Sub now t sdiv Millisecond"

record Report =
  Address :: string
  Header :: "(string \<times> string list) list"
  Proto :: string
  Status :: string
  Timing :: Timing

definition emptyTiming :: Timing where
  "emptyTiming = \<lparr>DNS = 0, TCP = 0, TLS = 0, Server = 0, Transfer = 0,
     Lookup = 0, Connect = 0, PreTransfer = 0, StartTransfer = 0, Total = 0\<rparr>"

definition emptyReport :: Report where
  "emptyReport = \<lparr>Address = [], Header = [], Proto = [], Status = [], Timing = emptyTiming\<rparr>"

text \<open>
  The variables that the callbacks of one iteration close over, the lines the callbacks
  print, and the number of readings of the clock taken so far: \<open>time.Now()\<close> returns
  reading number \<open>ticks\<close> of the clock and advances it.
\<close>

record tracer =
  tStart :: "instant option"
  tDNSStart :: "instant option"
  tConnectStart :: "instant option"
  tTLSStart :: "instant option"
  tConnected :: "instant option"
  tTTFB :: "instant option"
  report :: Report
  printed :: "string list"
  ticks :: nat

definition newTracer :: "nat \<Rightarrow> tracer" where
  "newTracer k = \<lparr>tStart = None, tDNSStart = None, tConnectStart = None, tTLSStart = None,
     tConnected = None, tTTFB = None, report = emptyReport, printed = [], ticks = k\<rparr>"

definition setTiming :: "(Timing \<Rightarrow> Timing) \<Rightarrow> tracer \<Rightarrow> tracer" where
  "setTiming f s = s\<lparr>report := (report s)\<lparr>Timing := f (Timing (report s))\<rparr>\<rparr>"

text \<open>The callbacks of \<open>httptrace.ClientTrace\<close> that the program registers.\<close>

datatype event =
    GetConn
  | DNSStart
  | DNSDone
  | ConnectStart
  | ConnectDone string bool
  | TLSHandshakeStart
  | TLSHandshakeDone
  | GotConn
  | GotFirstResponseByte

datatype fatal =
    MissingPostBody
  | CouldNotParseURL string
  | InvalidHeader string
  | UnableToCreateRequest
  | FailedToOpenDataFile string
  | ClientCertError
  | HTTP2Error
  | UnableToConnect string
  | FailedToReadResponse
  | NoRemoteFilename
  | UnableToCreateFile string
  | FailedToReadResponseBody
  | UnableToFollowRedirect
  | MaximumRedirects
  | TemplatePanic panic

text \<open>
  One callback, run when the library fires the event. \<open>clock\<close> gives the successive
  readings of the monotonic clock; \<open>jsonOutput\<close> is the \<open>-J\<close> flag. The second
  argument of \<open>ConnectDone\<close> says that its \<open>err\<close> is not nil.
\<close>

fun callback :: "bool \<Rightarrow> (nat \<Rightarrow> instant) \<Rightarrow> event \<Rightarrow> tracer \<Rightarrow> fatal + tracer" where
  "callback jsonOutput clock GetConn s =
     Inr (s\<lparr>tStart := Some (clock (ticks s)), ticks := ticks s + 1\<rparr>)"
| "callback jsonOutput clock DNSStart s =
     Inr (s\<lparr>tDNSStart := Some (clock (ticks s)), ticks := ticks s + 1\<rparr>)"
| "callback jsonOutput clock DNSDone s =
     Inr (setTiming (\<lambda>t. t\<lparr>DNS := msSince (clock (ticks s)) (tDNSStart s),
                              Lookup := msSince (clock (ticks s + 1)) (tStart s)\<rparr>)
           (s\<lparr>ticks := ticks s + 2\<rparr>))"
| "callback jsonOutput clock ConnectStart s =
     (if tConnectStart s = None
      then Inr (s\<lparr>tConnectStart := Some (clock (ticks s)), ticks := ticks s + 1\<rparr>)
      else Inr s)"
| "callback jsonOutput clock (ConnectDone addr failed) s =
     (if failed then Inl (UnableToConnect addr)
      else
        let s1 = setTiming (\<lambda>t. t\<lparr>TCP := msSince (clock (ticks s)) (tConnectStart s),
                                      Connect := msSince (clock (ticks s + 1)) (tStart s)\<rparr>)
                   (s\<lparr>ticks := ticks s + 2\<rparr>);
            s2 = s1\<lparr>report := (report s1)\<lparr>Address := addr\<rparr>\<rparr>
        in if \<not> jsonOutput then Inr (s2\<lparr>printed := printed s2 @ [''Connected to '' @ addr]\<rparr>)
           else Inr s2)"
| "callback jsonOutput clock TLSHandshakeStart s =
     Inr (s\<lparr>tTLSStart := Some (clock (ticks s)), ticks := ticks s + 1\<rparr>)"
| "callback jsonOutput clock TLSHandshakeDone s =
     Inr (setTiming (\<lambda>t. t\<lparr>TLS := msSince (clock (ticks s)) (tTLSStart s)\<rparr>)
           (s\<lparr>ticks := ticks s + 1\<rparr>))"
| "callback jsonOutput clock GotConn s =
     Inr (setTiming (\<lambda>t. t\<lparr>PreTransfer := msSince (clock (ticks s + 1)) (tStart s)\<rparr>)
           (s\<lparr>tConnected := Some (clock (ticks s)), ticks := ticks s + 2\<rparr>))"
| "callback jsonOutput clock GotFirstResponseByte s =
     Inr (setTiming (\<lambda>t. t\<lparr>Server := msSince (clock (ticks s + 1)) (tConnected s),
                              StartTransfer := msSince (clock (ticks s + 2)) (tStart s)\<rparr>)
           (s\<lparr>tTTFB := Some (clock (ticks s)), ticks := ticks s + 3\<rparr>))"

text \<open>The callbacks of one \<open>client.Do\<close>, in the order the library fires them.\<close>

fun callbacks :: "bool \<Rightarrow> (nat \<Rightarrow> instant) \<Rightarrow> event list \<Rightarrow> tracer \<Rightarrow> fatal + tracer" where
  "callbacks jsonOutput clock [] s = Inr s"
| "callbacks jsonOutput clock (e # es) s =
     (case callback jsonOutput clock e s of
        Inl f \<Rightarrow> Inl f
      | Inr s' \<Rightarrow> callbacks jsonOutput clock es s')"

text \<open>Lines 393-395: after the body has been read.\<close>

definition afterReadBody :: "(nat \<Rightarrow> instant) \<Rightarrow> tracer \<Rightarrow> tracer" where
  "afterReadBody clock s =
     setTiming (\<lambda>t. t\<lparr>Transfer := msSince (clock (ticks s)) (tTTFB s),
                       Total := msSince (clock (ticks s + 1)) (tStart s)\<rparr>)
       (s\<lparr>ticks := ticks s + 2\<rparr>)"

text \<open>
  The order in which the library fires the events of one exchange that ends with a
  response: the connection is asked for; the name is resolved unless the host is an
  address or the connection is reused; one or more connection attempts are started and
  finish unless the connection is reused; a handshake follows on an encrypted
  connection; the connection is handed over; the first byte of the response arrives.
\<close>

datatype phase =
    Idle | Acquiring | Resolving | Resolved | Connecting | Connected
  | Handshaking | Secured | Obtained | Transferring

primrec advance :: "phase \<Rightarrow> event \<Rightarrow> phase option" where
  "advance Idle e = (case e of GetConn \<Rightarrow> Some Acquiring | _ \<Rightarrow> None)"
| "advance Acquiring e =
     (case e of
        DNSStart \<Rightarrow> Some Resolving
      | ConnectStart \<Rightarrow> Some Connecting
      | GotConn \<Rightarrow> Some Obtained
      | _ \<Rightarrow> None)"
| "advance Resolving e = (case e of DNSDone \<Rightarrow> Some Resolved | _ \<Rightarrow> None)"
| "advance Resolved e = (case e of ConnectStart \<Rightarrow> Some Connecting | _ \<Rightarrow> None)"
| "advance Connecting e =
     (case e of
        ConnectStart \<Rightarrow> Some Connecting
      | ConnectDone addr failed \<Rightarrow> Some Connected
      | _ \<Rightarrow> None)"
| "advance Connected e =
     (case e of
        ConnectStart \<Rightarrow> Some Connecting
      | ConnectDone addr failed \<Rightarrow> Some Connected
      | TLSHandshakeStart \<Rightarrow> Some Handshaking
      | GotConn \<Rightarrow> Some Obtained
      | _ \<Rightarrow> None)"
| "advance Handshaking e = (case e of TLSHandshakeDone \<Rightarrow> Some Secured | _ \<Rightarrow> None)"
| "advance Secured e = (case e of GotConn \<Rightarrow> Some Obtained | _ \<Rightarrow> None)"
| "advance Obtained e = (case e of GotFirstResponseByte \<Rightarrow> Some Transferring | _ \<Rightarrow> None)"
| "advance Transferring e = None"

fun lifecycle :: "phase \<Rightarrow> event list \<Rightarrow> phase option" where
  "lifecycle p [] = Some p"
| "lifecycle p (e # es) =
     (case advance p e of None \<Rightarrow> None | Some p' \<Rightarrow> lifecycle p' es)"

definition isTLS :: "event \<Rightarrow> bool" where
  "isTLS e = (e = TLSHandshakeStart \<or> e = TLSHandshakeDone)"

text \<open>
  The events of a successful exchange over a plaintext connection: in the
  library's order up to the first byte of the response, and without a handshake.
\<close>

definition plaintextExchange :: "event list \<Rightarrow> bool" where
  "plaintextExchange es =
     (lifecycle Idle es = Some Transferring \<and> list_all (\<lambda>e. \<not> isTLS e) es)"

text \<open>
  The timing of one iteration whose \<open>client.Do\<close> returned a response: the callbacks,
  then lines 393-395.
\<close>

definition timedExchange :: "bool \<Rightarrow> (nat \<Rightarrow> instant) \<Rightarrow> event list \<Rightarrow> nat \<Rightarrow> fatal + tracer" where
  "timedExchange jsonOutput clock es k =
     (case callbacks jsonOutput clock es (newTracer k) of
        Inl f \<Rightarrow> Inl f
      | Inr s \<Rightarrow> Inr (afterReadBody clock s))"

text \<open>
  What the callbacks have collected when the exchange has reached a phase: the start
  time is an earlier reading of the clock, and the cumulative timestamps written so far
  are ordered and no later than the next reading of the clock.
\<close>

definition collected :: "(nat \<Rightarrow> instant) \<Rightarrow> phase \<Rightarrow> tracer \<Rightarrow> bool" where
  "collected clock p s =
     (let T = Timing (report s) in
      TLS T = 0 \<and>
      (if p = Idle then Lookup T = 0 \<and> Connect T = 0
       else (\<exists>k<ticks s. tStart s = Some (clock k) \<and>
              (let B = msSince (clock (ticks s)) (Some (clock k)) in
               if p = Acquiring \<or> p = Resolving then Lookup T = 0 \<and> Connect T = 0
               else if p = Resolved \<or> p = Connecting then 0 \<le> Lookup T \<and> Lookup T \<le> B
               else if p = Connected \<or> p = Handshaking \<or> p = Secured then
                 0 \<le> Lookup T \<and> Lookup T \<le> Connect T \<and> Connect T \<le> B
               else if p = Obtained then
                 0 \<le> Lookup T \<and> Lookup T \<le> Connect T \<and> Connect T \<le> PreTransfer T
                 \<and> PreTransfer T \<le> B
               else
                 0 \<le> Lookup T \<and> Lookup T \<le> Connect T \<and> Connect T \<le> PreTransfer T
                 \<and> PreTransfer T \<le> StartTransfer T \<and> StartTransfer T \<le> B))))"

section \<open>Flags, targets and requests (main.go lines 76-124, 238-263, 492-518)\<close>

text \<open>The command line flags, with the defaults that \<open>init\<close> registers.\<close>

record flags =
  httpMethod :: string
  postBody :: string
  followRedirects :: bool
  onlyHeader :: bool
  insecure :: bool
  httpHeaders :: "string list"
  saveOutput :: bool
  outputFile :: string
  showVersion :: bool
  clientCertFile :: string
  fourOnly :: bool
  sixOnly :: bool
  maxTime :: duration
  cacert :: string
  jsonOutput :: bool
  numRequests :: int
  requestDelay :: duration

definition defaultFlags :: flags where
  "defaultFlags = \<lparr>httpMethod = ''GET'', postBody = [], followRedirects = False,
     onlyHeader = False, insecure = False, httpHeaders = [], saveOutput = False,
     outputFile = [], showVersion = False, clientCertFile = [], fourOnly = False,
     sixOnly = False, maxTime = 0, cacert = [], jsonOutput = False, numRequests = 1,
     requestDelay = 3 * Second\<rparr>"

definition maxRedirects :: int where
  "maxRedirects = 10"

text \<open>The fields of a \<open>url.URL\<close> that the program reads.\<close>

record URL =
  Scheme :: string
  Host :: string
  Path :: string
  RawQuery :: string

definition RequestURI :: "URL \<Rightarrow> string" where
  "RequestURI u =
     (if Path u = [] then ''/'' else Path u) @ (if RawQuery u = [] then [] else CHR ''?'' # RawQuery u)"

record request =
  Method :: string
  reqURL :: URL
  reqHost :: string
  reqHeader :: "(string \<times> string) list"

datatype location = ErrNoLocation | LocationError | Target URL

text \<open>
  A response as the program reads it: \<open>Location\<close> is what \<open>resp.Location()\<close>
  returns, and \<open>bodyError\<close> says that copying the body out returns an error.
\<close>

record response =
  StatusCode :: int
  StatusText :: string
  ProtoText :: string
  ProtoMajor :: int
  ProtoMinor :: int
  Headers :: "(string \<times> string list) list"
  Location :: location
  bodyError :: bool

record tlsConfig =
  ServerName :: string
  InsecureSkipVerify :: bool
  Certificates :: "string list"
  RootCAs :: "string list option"

record transport =
  dialNetwork :: string
  TLSClientConfig :: "tlsConfig option"

text \<open>What the network does with one \<open>client.Do\<close>.\<close>

record attempt =
  events :: "event list"
  doError :: bool
  response :: response

text \<open>What a run does that can be seen from outside, in order.\<close>

datatype action =
    Visit URL int
  | Built request
  | Warned string
  | Slept duration
  | Sent request
  | PrintedConnected string
  | CreatedFile string
  | CopiedBody bool
  | PrintedJSON Report
  | PrintedStatus int int string
  | PrintedHeader string "string list"
  | PrintedBodyMsg string
  | PrintedDiagram string

text \<open>
  Everything outside the program: the file system, the clock, the network, and the
  library functions whose results the program only passes on. \<open>pemCerts\<close> gives the
  certificates that \<open>AppendCertsFromPEM\<close> finds in a file's bytes, \<open>keyPair\<close> the
  certificate that \<open>tls.X509KeyPair\<close> builds from the PEM blocks of a file (or none),
  \<open>exchange\<close> what the network does with a request given all that has happened before.
\<close>

record world =
  urlParse :: "string \<Rightarrow> URL option"
  requestError :: "string \<Rightarrow> URL \<Rightarrow> bool"
  splitHost :: "string \<Rightarrow> string option"
  pemCerts :: "string \<Rightarrow> string list"
  keyPair :: "string \<Rightarrow> string option"
  http2Error :: bool
  parseMediaType :: "string \<Rightarrow> (string \<times> (string \<times> string) list) option"
  pathBase :: "string \<Rightarrow> string"
  noColor :: bool
  readFile :: "string \<Rightarrow> string option"
  openFile :: "string \<Rightarrow> bool"
  createFile :: "string \<Rightarrow> bool"
  monotonic :: "nat \<Rightarrow> instant"
  exchange :: "action list \<Rightarrow> transport \<Rightarrow> request \<Rightarrow> attempt"

subsection \<open>\<open>parseURL\<close>\<close>

fun Contains :: "string \<Rightarrow> string \<Rightarrow> bool" where
  "Contains [] sub = (sub = [])"
| "Contains (c # s) sub = (prefix sub (c # s) \<or> Contains s sub)"

definition parseURL :: "(string \<Rightarrow> URL option) \<Rightarrow> string \<Rightarrow> fatal + URL" where
  "parseURL parse uri =
     (let uri' = (if \<not> Contains uri ''://'' \<and> \<not> prefix ''//'' uri then ''//'' @ uri else uri) in
      case parse uri' of
        None \<Rightarrow> Inl (CouldNotParseURL uri')
      | Some url \<Rightarrow>
          if Scheme url = [] then
            (let url1 = url\<lparr>Scheme := ''http''\<rparr> in
             if \<not> suffix '':80'' (Host url1) then Inr (url1\<lparr>Scheme := Scheme url1 @ ''s''\<rparr>)
             else Inr url1)
          else Inr url)"

text \<open>
  What \<open>url.Parse\<close> makes of a reference \<open>//host\<close>, \<open>//host/path\<close> or
  \<open>//host/path?query\<close> without user information: no scheme, the host up to the
  first \<open>/\<close>, \<open>?\<close> or \<open>#\<close>. Only the examples use it.
\<close>

definition parseNetworkPath :: "string \<Rightarrow> URL option" where
  "parseNetworkPath s =
     (if prefix ''//'' s then
        (let r = drop 2 s;
             h = takeWhile (\<lambda>c. c \<noteq> CHR ''/'' \<and> c \<noteq> CHR ''?'' \<and> c \<noteq> CHR ''#'') r;
             p = takeWhile (\<lambda>c. c \<noteq> CHR ''?'' \<and> c \<noteq> CHR ''#'') (drop (length h) r);
             q = takeWhile (\<lambda>c. c \<noteq> CHR ''#'') (drop (length h + length p + 1) r)
         in Some \<lparr>Scheme = [], Host = h, Path = p, RawQuery = q\<rparr>)
      else None)"

subsection \<open>\<open>headerKeyValue\<close>, \<open>createBody\<close> and \<open>newRequest\<close>\<close>

definition TrimRight :: "string \<Rightarrow> string \<Rightarrow> string" where
  "TrimRight s cutset = rev (dropWhile (\<lambda>c. c \<in> set cutset) (rev s))"

definition TrimLeft :: "string \<Rightarrow> string \<Rightarrow> string" where
  "TrimLeft s cutset = dropWhile (\<lambda>c. c \<in> set cutset) s"

definition headerKeyValue :: "string \<Rightarrow> fatal + string \<times> string" where
  "headerKeyValue h =
     (case IndexByte h CHR '':'' of
        None \<Rightarrow> Inl (InvalidHeader h)
      | Some i \<Rightarrow> Inr (TrimRight (take i h) '' '', TrimLeft (drop i h) '' :''))"

text \<open>\<open>strings.EqualFold\<close> on names in ASCII: equal up to the case of the letters.\<close>

definition lowerASCII :: "char \<Rightarrow> char" where
  "lowerASCII c = (if CHR ''A'' \<le> c \<and> c \<le> CHR ''Z'' then char_of (of_char c + (32::nat)) else c)"

definition EqualFold :: "string \<Rightarrow> string \<Rightarrow> bool" where
  "EqualFold a b = (map lowerASCII a = map lowerASCII b)"

text \<open>\<open>createBody\<close> opens the file of a body \<open>@filename\<close>; the reader itself is not modelled.\<close>

definition createBody :: "world \<Rightarrow> string \<Rightarrow> fatal + unit" where
  "createBody W body =
     (if prefix ''@'' body then
        (let filename = drop 1 body in
         if openFile W filename then Inr () else Inl (FailedToOpenDataFile filename))
      else Inr ())"

fun addHeaders :: "string list \<Rightarrow> request \<Rightarrow> fatal + request" where
  "addHeaders [] req = Inr req"
| "addHeaders (h # hs) req =
     (case headerKeyValue h of
        Inl f \<Rightarrow> Inl f
      | Inr (k, v) \<Rightarrow>
          if EqualFold k ''host'' then addHeaders hs (req\<lparr>reqHost := v\<rparr>)
          else addHeaders hs (req\<lparr>reqHeader := reqHeader req @ [(k, v)]\<rparr>))"

definition newRequest :: "world \<Rightarrow> flags \<Rightarrow> string \<Rightarrow> URL \<Rightarrow> string \<Rightarrow> fatal + request" where
  "newRequest W F method url body =
     (case createBody W body of
        Inl f \<Rightarrow> Inl f
      | Inr _ \<Rightarrow>
          if requestError W method url then Inl UnableToCreateRequest
          else addHeaders (httpHeaders F)
                 \<lparr>Method = method, reqURL = url, reqHost = Host url, reqHeader = []\<rparr>)"

subsection \<open>\<open>readCACerts\<close> and \<open>readClientCert\<close>\<close>

text \<open>
  A certificate pool is the list of its certificates, and \<open>None\<close> is the nil pool,
  for which the TLS library verifies against the system's roots. The second component
  is the error.
\<close>

definition readCACerts :: "world \<Rightarrow> string \<Rightarrow> string list option \<times> string option" where
  "readCACerts W filename =
     (if filename = [] then (None, None)
      else case readFile W filename of
             None \<Rightarrow> (None, Some ''failed to read CA certificate file'')
           | Some certFileBytes \<Rightarrow> (Some ([] @ pemCerts W certFileBytes), None))"

definition readClientCert :: "world \<Rightarrow> string \<Rightarrow> string list option \<times> string option" where
  "readClientCert W filename =
     (if filename = [] then (None, None)
      else case readFile W filename of
             None \<Rightarrow> (None, Some ''failed to read client certificate file'')
           | Some certFileBytes \<Rightarrow>
               (case keyPair W certFileBytes of
                  None \<Rightarrow> (None, Some ''unable to load client cert and key pair'')
                | Some cert \<Rightarrow> (Some [cert], None)))"

subsection \<open>\<open>isRedirect\<close>, \<open>getFilenameFromHeaders\<close> and \<open>readResponseBody\<close>\<close>

definition isRedirect :: "response \<Rightarrow> bool" where
  "isRedirect resp = (StatusCode resp > 299 \<and> StatusCode resp < 400)"

definition headerGet :: "(string \<times> string list) list \<Rightarrow> string \<Rightarrow> string" where
  "headerGet h k = (case map_of h k of None \<Rightarrow> [] | Some [] \<Rightarrow> [] | Some (v # vs) \<Rightarrow> v)"

definition getFilenameFromHeaders :: "world \<Rightarrow> (string \<times> string list) list \<Rightarrow> string" where
  "getFilenameFromHeaders W headers =
     (let hdr = headerGet headers ''Content-Disposition'' in
      if hdr \<noteq> [] then
        (case parseMediaType W hdr of
           None \<Rightarrow> []
         | Some (mt, params) \<Rightarrow>
             if mt = ''attachment'' then
               (case map_of params ''filename'' of None \<Rightarrow> [] | Some filename \<Rightarrow> filename)
             else [])
      else [])"

text \<open>
  \<open>readResponseBody\<close> returns what it did to the file system and the body, and
  either the fatal error that ended the process or its message.
  \<open>CopiedBody\<close> stands for the call of \<open>io.Copy\<close> on the body, into the file or
  into \<open>ioutil.Discard\<close>.
\<close>

definition readResponseBody ::
  "world \<Rightarrow> flags \<Rightarrow> request \<Rightarrow> response \<Rightarrow> action list \<times> (fatal + string)" where
  "readResponseBody W F req resp =
     (if isRedirect resp \<or> Method req = ''HEAD'' then ([], Inr [])
      else if saveOutput F \<or> outputFile F \<noteq> [] then
        (let filename =
               (if saveOutput F then
                  (let fn = getFilenameFromHeaders W (Headers resp) in
                   if fn = [] then pathBase W (RequestURI (reqURL req)) else fn)
                else outputFile F)
         in if saveOutput F \<and> filename = ''/'' then ([], Inl NoRemoteFilename)
            else if \<not> createFile W filename then ([], Inl (UnableToCreateFile filename))
            else if bodyError resp then
              ([CreatedFile filename, CopiedBody True], Inl FailedToReadResponseBody)
            else ([CreatedFile filename, CopiedBody True], Inr (CyanString (noColor W) ''Body read'')))
      else ([CopiedBody False], Inr (CyanString (noColor W) ''Body discarded'')))"

section \<open>\<open>visit\<close> and \<open>main\<close> (main.go lines 146-176 and 275-452)\<close>

text \<open>
  The state of a run: the global \<open>redirectsFollowed\<close>, what the run has done so
  far, and the number of readings of the clock taken so far.
\<close>

record run =
  redirectsFollowed :: int
  trail :: "action list"
  reads :: nat

definition emit :: "action list \<Rightarrow> run \<Rightarrow> run" where
  "emit as st = st\<lparr>trail := trail st @ as\<rparr>"

definition startRun :: run where
  "startRun = \<lparr>redirectsFollowed = 0, trail = [], reads = 0\<rparr>"

text \<open>
  Lines 278-334, the part of \<open>visit\<close> before the loop: the request is built, and the
  transport is configured. \<open>Visit\<close> marks the call, with the value of the counter.
\<close>

definition enter :: "world \<Rightarrow> flags \<Rightarrow> URL \<Rightarrow> run \<Rightarrow> (fatal + request \<times> transport) \<times> run" where
  "enter W F url st =
     (let st0 = emit [Visit url (redirectsFollowed st)] st in
      case newRequest W F (httpMethod F) url (postBody F) of
        Inl f \<Rightarrow> (Inl f, st0)
      | Inr req \<Rightarrow>
          let st1 = emit [Built req] st0;
              network = (if fourOnly F then ''tcp4'' else if sixOnly F then ''tcp6'' else ''tcp'')
          in if Scheme url = ''https'' then
               (let host = (case splitHost W (reqHost req) of None \<Rightarrow> reqHost req | Some h \<Rightarrow> h) in
                case readClientCert W (clientCertFile F) of
                  (_, Some err) \<Rightarrow> (Inl ClientCertError, st1)
                | (cert, None) \<Rightarrow>
                    (case readCACerts W (cacert F) of
                       (rootCAs, err) \<Rightarrow>
                         let st2 = (if err \<noteq> None
                                    then emit [Warned ''warning: failed to read CA certificates''] st1
                                    else st1);
                             tr = \<lparr>dialNetwork = network,
                                   TLSClientConfig = Some \<lparr>ServerName = host,
                                     InsecureSkipVerify = insecure F,
                                     Certificates = (case cert of None \<Rightarrow> [] | Some cs \<Rightarrow> cs),
                                     RootCAs = rootCAs\<rparr>\<rparr>
                         in if http2Error W then (Inl HTTP2Error, st2) else (Inr (req, tr), st2)))
             else (Inr (req, \<lparr>dialNetwork = network, TLSClientConfig = None\<rparr>), st1))"

text \<open>
  Lines 415-417: the header names sorted with \<open>Less\<close>. The names are the keys of a
  map, hence distinct, and on distinct names every sorting algorithm gives the same
  list; insertion is the one written here.
\<close>

fun insertName :: "string \<Rightarrow> string list \<Rightarrow> string list" where
  "insertName a [] = [a]"
| "insertName a (b # bs) = (if lessNames a b then a # b # bs else b # insertName a bs)"

definition sortNames :: "string list \<Rightarrow> string list" where
  "sortNames names = foldr insertName names []"

text \<open>Lines 401-432: the report is printed, as JSON or as lines and a diagram.\<close>

definition render ::
  "world \<Rightarrow> flags \<Rightarrow> URL \<Rightarrow> response \<Rightarrow> Report \<Rightarrow> string \<Rightarrow> action list \<times> panic option" where
  "render W F url resp rep bodyMsg =
     (if jsonOutput F then ([PrintedJSON rep], None)
      else
        let head = [PrintedStatus (ProtoMajor resp) (ProtoMinor resp) (StatusText resp)]
              @ map (\<lambda>k. PrintedHeader k (case map_of (Headers resp) k of None \<Rightarrow> [] | Some vs \<Rightarrow> vs))
                  (sortNames (map fst (Headers resp)))
              @ (if bodyMsg \<noteq> [] then [PrintedBodyMsg bodyMsg] else [])
        in if Scheme url = ''https'' then
             (case printTemplate (noColor W) httpsTemplate (Timing rep) of
                Inl p \<Rightarrow> (head, Some p)
              | Inr out \<Rightarrow> (head @ [PrintedDiagram out], None))
           else if Scheme url = ''http'' then
             (case printTemplate (noColor W) httpTemplate (Timing rep) of
                Inl p \<Rightarrow> (head, Some p)
              | Inr out \<Rightarrow> (head @ [PrintedDiagram out], None))
           else (head, None))"

text \<open>
  Lines 337-432, one iteration of the loop up to the printed report: the delay, the
  exchange with its callbacks, the body, the timing, the report.
\<close>

definition iteration ::
  "world \<Rightarrow> flags \<Rightarrow> URL \<Rightarrow> request \<Rightarrow> transport \<Rightarrow> int \<Rightarrow> run \<Rightarrow> (fatal + response) \<times> run" where
  "iteration W F url req tr i st =
     (let st0 = (if i > 0 then emit [Slept (requestDelay F)] st else st);
          att = exchange W (trail st0) tr req;
          st1 = emit [Sent req] st0
      in case callbacks (jsonOutput F) (monotonic W) (events att) (newTracer (reads st1)) of
           Inl f \<Rightarrow> (Inl f, st1)
         | Inr c \<Rightarrow>
             let st2 = (emit (map PrintedConnected (printed c)) st1)\<lparr>reads := ticks c\<rparr> in
             if doError att then (Inl FailedToReadResponse, st2)
             else
               let resp = response att;
                   body = readResponseBody W F req resp;
                   st3 = emit (fst body) st2
               in case snd body of
                    Inl f \<Rightarrow> (Inl f, st3)
                  | Inr bodyMsg \<Rightarrow>
                      let c' = afterReadBody (monotonic W) c;
                          rep = (report c')\<lparr>Proto := ProtoText resp, Status := StatusText resp,
                                  Header := Headers resp\<rparr>;
                          st4 = st3\<lparr>reads := ticks c'\<rparr>;
                          out = render W F url resp rep bodyMsg;
                          st5 = emit (fst out) st4
                      in case snd out of
                           Some p \<Rightarrow> (Inl (TemplatePanic p), st5)
                         | None \<Rightarrow> (Inr resp, st5))"

datatype outcome = Returned | Fatal fatal | Exit int

text \<open>
  The loop of \<open>visit\<close> from iteration \<open>i\<close> on, with lines 434-450: a redirect that
  is to be followed calls \<open>visit\<close> on its target, that is \<open>enter\<close> and then the
  loop from iteration \<open>0\<close>, and the loop goes on when that call returns.
\<close>

function visitLoop ::
  "world \<Rightarrow> flags \<Rightarrow> URL \<Rightarrow> request \<Rightarrow> transport \<Rightarrow> int \<Rightarrow> run \<Rightarrow> outcome \<times> run" where
  "visitLoop W F url req tr i st =
     (if \<not> i < numRequests F then (Returned, st)
      else
        case iteration W F url req tr i st of
          (Inl f, st1) \<Rightarrow> (Fatal f, st1)
        | (Inr resp, st1) \<Rightarrow>
            if followRedirects F \<and> isRedirect resp then
              (case Location resp of
                 ErrNoLocation \<Rightarrow> (Returned, st1)
               | LocationError \<Rightarrow> (Fatal UnableToFollowRedirect, st1)
               | Target loc \<Rightarrow>
                   let st2 = st1\<lparr>redirectsFollowed := redirectsFollowed st1 + 1\<rparr> in
                   if redirectsFollowed st2 > maxRedirects then (Fatal MaximumRedirects, st2)
                   else
                     (case enter W F loc st2 of
                        (Inl f, st3) \<Rightarrow> (Fatal f, st3)
                      | (Inr (req', tr'), st3) \<Rightarrow>
                          (case visitLoop W F loc req' tr' 0 st3 of
                             (Returned, st4) \<Rightarrow> visitLoop W F url req tr (i + 1) st4
                           | (out, st4) \<Rightarrow> (out, st4))))
            else visitLoop W F url req tr (i + 1) st1)"
  by pat_completeness auto

text \<open>
  The loop ends: \<open>iteration\<close> and \<open>enter\<close> leave the counter alone, every call of
  \<open>visit\<close> inside the loop is made with a larger counter that is at most
  \<open>maxRedirects\<close>, and the counter is not smaller when that call returns.
\<close>

lemma emit_counter [simp]: "redirectsFollowed (emit as st) = redirectsFollowed st"
  by (simp add: emit_def)

lemma iteration_counter: "redirectsFollowed (snd (iteration W F url req tr i st)) = redirectsFollowed st"
  by (simp add: iteration_def Let_def split: sum.splits option.splits)

lemma enter_counter: "redirectsFollowed (snd (enter W F url st)) = redirectsFollowed st"
  by (simp add: enter_def Let_def split: sum.splits option.splits prod.splits)

lemma visitLoop_counter:
  "visitLoop_dom (W, F, url, req, tr, i, st) \<Longrightarrow>
   redirectsFollowed st \<le> redirectsFollowed (snd (visitLoop W F url req tr i st))"
proof (induction W F url req tr i st rule: visitLoop.pinduct)
  case (1 W F url req tr i st)
  show ?case
  proof (cases "i < numRequests F")
    case False
    then show ?thesis using "1.hyps" by (simp add: visitLoop.psimps)
  next
    case True
    then have nn: "\<not> \<not> i < numRequests F" by simp
    obtain r st1 where it: "iteration W F url req tr i st = (r, st1)" by (cases "iteration W F url req tr i st")
    have c1: "redirectsFollowed st1 = redirectsFollowed st"
      using iteration_counter [of W F url req tr i st] it by simp
    show ?thesis
    proof (cases r)
      case (Inl f)
      then show ?thesis using "1.hyps" True it c1 by (simp add: visitLoop.psimps)
    next
      case (Inr resp)
      show ?thesis
      proof (cases "followRedirects F \<and> isRedirect resp")
        case False
        then show ?thesis
          using "1.hyps" True it Inr c1 "1.IH"(3) [OF nn it [symmetric] Inr]
          by (auto simp add: visitLoop.psimps)
      next
        case fr: True
        show ?thesis
        proof (cases "Location resp")
          case ErrNoLocation
          then show ?thesis using "1.hyps" True it Inr c1 fr by (simp add: visitLoop.psimps)
        next
          case LocationError
          then show ?thesis using "1.hyps" True it Inr c1 fr by (simp add: visitLoop.psimps)
        next
          case (Target loc)
          let ?st2 = "st1\<lparr>redirectsFollowed := redirectsFollowed st1 + 1\<rparr>"
          show ?thesis
          proof (cases "redirectsFollowed ?st2 > maxRedirects")
            case True
            then show ?thesis using "1.hyps" \<open>i < numRequests F\<close> it Inr c1 fr Target
              by (simp add: visitLoop.psimps Let_def)
          next
            case nomax: False
            obtain e st3 where en: "enter W F loc ?st2 = (e, st3)" by (cases "enter W F loc ?st2")
            have c3: "redirectsFollowed st3 = redirectsFollowed st + 1"
              using enter_counter [of W F loc ?st2] en c1 by simp
            show ?thesis
            proof (cases e)
              case (Inl f)
              then show ?thesis using "1.hyps" \<open>i < numRequests F\<close> it Inr c3 fr Target nomax en
                by (simp add: visitLoop.psimps Let_def)
            next
              case inr: (Inr rt)
              obtain req' tr' where rt: "rt = (req', tr')" by (cases rt)
              obtain out st4 where v: "visitLoop W F loc req' tr' 0 st3 = (out, st4)"
                by (cases "visitLoop W F loc req' tr' 0 st3")
              have c4: "redirectsFollowed st3 \<le> redirectsFollowed st4"
                using "1.IH"(1) [OF nn it [symmetric] Inr fr Target refl nomax en [symmetric] inr rt [symmetric]] v
                by simp
              show ?thesis
              proof (cases out)
                case Returned
                have "redirectsFollowed st4 \<le> redirectsFollowed (snd (visitLoop W F url req tr (i + 1) st4))"
                  using "1.IH"(2) [OF nn it [symmetric] Inr fr Target refl nomax en [symmetric] inr rt [symmetric] v [symmetric] Returned]
                  by simp
                then show ?thesis
                  using "1.hyps" \<open>i < numRequests F\<close> it Inr c3 c4 fr Target nomax en inr rt v Returned
                  by (simp add: visitLoop.psimps Let_def)
              next
                case (Fatal f)
                then show ?thesis
                  using "1.hyps" \<open>i < numRequests F\<close> it Inr c3 c4 fr Target nomax en inr rt v
                  by (simp add: visitLoop.psimps Let_def)
              next
                case (Exit n)
                then show ?thesis
                  using "1.hyps" \<open>i < numRequests F\<close> it Inr c3 c4 fr Target nomax en inr rt v
                  by (simp add: visitLoop.psimps Let_def)
              qed
            qed
          qed
        qed
      qed
    qed
  qed
qed

termination visitLoop
proof (relation "measures [\<lambda>(W, F, url, req, tr, i, st). nat (maxRedirects + 1 - redirectsFollowed st),
                           \<lambda>(W, F, url, req, tr, i, st). nat (numRequests F - i)]", goal_cases)
  case 1
  show ?case by simp
next
  case (2 W F url req tr i st x st1 resp loc st2 y st3 rt req' tr')
  from 2 have "(Inr resp, st1) = iteration W F url req tr i st" by simp
  then have "snd (iteration W F url req tr i st) = st1" by (metis snd_conv)
  then have c1: "redirectsFollowed st1 = redirectsFollowed st"
    using iteration_counter [of W F url req tr i st] by simp
  from 2 have "(Inr rt, st3) = enter W F loc st2" by simp
  then have "snd (enter W F loc st2) = st3" by (metis snd_conv)
  then have c3: "redirectsFollowed st3 = redirectsFollowed st2"
    using enter_counter [of W F loc st2] by simp
  from 2 have "redirectsFollowed st2 = redirectsFollowed st1 + 1" "\<not> redirectsFollowed st2 > maxRedirects"
    by simp_all
  with c1 c3 show ?case
    by (simp add: maxRedirects_def)
next
  case (3 W F url req tr i st x st1 resp loc st2 y st3 rt req' tr' z st4)
  from 3 have "(Inr resp, st1) = iteration W F url req tr i st" by simp
  then have "snd (iteration W F url req tr i st) = st1" by (metis snd_conv)
  then have c1: "redirectsFollowed st1 = redirectsFollowed st"
    using iteration_counter [of W F url req tr i st] by simp
  from 3 have "(Inr rt, st3) = enter W F loc st2" by simp
  then have "snd (enter W F loc st2) = st3" by (metis snd_conv)
  then have c3: "redirectsFollowed st3 = redirectsFollowed st2"
    using enter_counter [of W F loc st2] by simp
  from 3 have c2: "redirectsFollowed st2 = redirectsFollowed st1 + 1" "\<not> redirectsFollowed st2 > maxRedirects"
    by simp_all
  from 3 have "(Returned, st4) = visitLoop W F loc req' tr' 0 st3" "visitLoop_dom (W, F, loc, req', tr', 0, st3)"
    by simp_all
  then have "redirectsFollowed st3 \<le> redirectsFollowed st4"
    using visitLoop_counter [of W F loc req' tr' 0 st3] by (metis snd_conv)
  with c1 c2 c3 3 show ?case
    by (simp add: maxRedirects_def)
next
  case (4 W F url req tr i st x st1 resp)
  from 4 have "(Inr resp, st1) = iteration W F url req tr i st" by simp
  then have "snd (iteration W F url req tr i st) = st1" by (metis snd_conv)
  then have c1: "redirectsFollowed st1 = redirectsFollowed st"
    using iteration_counter [of W F url req tr i st] by simp
  with 4 show ?case
    by simp
qed

declare visitLoop.simps [simp del]

definition visit :: "world \<Rightarrow> flags \<Rightarrow> URL \<Rightarrow> run \<Rightarrow> outcome \<times> run" where
  "visit W F url st =
     (case enter W F url st of
        (Inl f, st1) \<Rightarrow> (Fatal f, st1)
      | (Inr (req, tr), st1) \<Rightarrow> visitLoop W F url req tr 0 st1)"

definition main :: "world \<Rightarrow> flags \<Rightarrow> string list \<Rightarrow> outcome \<times> run" where
  "main W F args =
     (if showVersion F then (Exit 0, startRun)
      else if fourOnly F \<and> sixOnly F then (Exit (- 1), startRun)
      else if length args \<noteq> 1 then (Exit 2, startRun)
      else if (httpMethod F = ''POST'' \<or> httpMethod F = ''PUT'') \<and> postBody F = [] then
        (Fatal MissingPostBody, startRun)
      else
        let F' = (if onlyHeader F then F\<lparr>httpMethod := ''HEAD''\<rparr> else F) in
        case parseURL (urlParse W) (args ! 0) of
          Inl f \<Rightarrow> (Fatal f, startRun)
        | Inr url \<Rightarrow> visit W F' url startRun)"

text \<open>Reading a trail.\<close>

fun visitCounters :: "action list \<Rightarrow> int list" where
  "visitCounters [] = []"
| "visitCounters (Visit u c # as) = c # visitCounters as"
| "visitCounters (a # as) = visitCounters as"

fun isPrint :: "action \<Rightarrow> bool" where
  "isPrint (PrintedJSON r) = True"
| "isPrint (PrintedStatus a b s) = True"
| "isPrint (PrintedHeader k vs) = True"
| "isPrint (PrintedBodyMsg m) = True"
| "isPrint (PrintedDiagram d) = True"
| "isPrint a = False"

fun isCopy :: "action \<Rightarrow> bool" where
  "isCopy (CopiedBody b) = True"
| "isCopy a = False"

fun isSchedule :: "action \<Rightarrow> bool" where
  "isSchedule (Built r) = True"
| "isSchedule (Slept d) = True"
| "isSchedule (Sent r) = True"
| "isSchedule a = False"

fun sentTo :: "URL \<Rightarrow> action \<Rightarrow> bool" where
  "sentTo u (Sent r) = (reqURL r = u)"
| "sentTo u a = False"

text \<open>
  A world for the examples: no files, no certificates, colour off, a clock that
  advances by seven milliseconds from one reading to the next, \<open>url.Parse\<close> on
  references \<open>//host/path\<close>, and a network that answers each request by a function
  of the request alone.
\<close>

definition plainWorld :: "(request \<Rightarrow> attempt) \<Rightarrow> world" where
  "plainWorld net =
     \<lparr>urlParse = parseNetworkPath, requestError = (\<lambda>m u. False), splitHost = (\<lambda>h. None),
      pemCerts = (\<lambda>b. []), keyPair = (\<lambda>b. None), http2Error = False,
      parseMediaType = (\<lambda>s. None), pathBase = (\<lambda>p. ''/''), noColor = True,
      readFile = (\<lambda>f. None), openFile = (\<lambda>f. False), createFile = (\<lambda>f. False),
      monotonic = (\<lambda>k. int k * 7000000), exchange = (\<lambda>h t r. net r)\<rparr>"

definition answer :: "int \<Rightarrow> location \<Rightarrow> bool \<Rightarrow> attempt" where
  "answer code loc bad =
     \<lparr>events = [GetConn, GotConn, GotFirstResponseByte], doError = False,
      response = \<lparr>StatusCode = code, StatusText = [], ProtoText = ''HTTP/1.1'', ProtoMajor = 1,
        ProtoMinor = 1, Headers = [], Location = loc, bodyError = bad\<rparr>\<rparr>"

definition target :: "string \<Rightarrow> URL" where
  "target h = \<lparr>Scheme = ''http'', Host = h, Path = ''/'', RawQuery = []\<rparr>"

section \<open>Properties of the header ordering\<close>

lemma endtoend_iff: "endtoend n \<longleftrightarrow> n \<notin> set hopByHopNames"
  by (simp add: endtoend_def hopByHopNames_def)

lemma lessNames_trans: "lessNames a b \<Longrightarrow> lessNames b c \<Longrightarrow> lessNames a c"
  by (auto simp: lessNames_def Let_def split: if_splits)

lemma lessNames_antisym: "lessNames a b \<Longrightarrow> lessNames b a \<Longrightarrow> a = b"
  by (auto simp: lessNames_def Let_def split: if_splits)

lemma lessNames_total: "a = b \<or> lessNames a b \<or> lessNames b a"
  by (auto simp: lessNames_def Let_def split: if_splits)

lemma lessNames_Server: "b \<noteq> ''Server'' \<Longrightarrow> lessNames ''Server'' b \<and> \<not> lessNames b ''Server''"
  by (simp add: lessNames_def)

lemma lessNames_classes:
  assumes "a \<noteq> ''Server''" "b \<noteq> ''Server''" "endtoend a" "\<not> endtoend b"
  shows "lessNames a b \<and> \<not> lessNames b a"
  using assms by (auto simp: lessNames_def Let_def)

lemma lessNames_same_class:
  assumes "a \<noteq> ''Server''" "b \<noteq> ''Server''" "endtoend a = endtoend b"
  shows "lessNames a b = (a < b)"
  using assms by (simp add: lessNames_def Let_def)

text \<open>
  C4. The comparator \<open>Less\<close> of the header display induces a total order on header
  names (\<open>headerLe\<close>: equal, or placed first by the comparator): it is reflexive,
  antisymmetric, transitive and total. \<open>Server\<close> is placed before every other name;
  among the other names, each of the eight hop-by-hop names is placed after each
  end-to-end name, whatever their spelling; and two names of the same class are
  compared as byte strings. \<open>Less\<close> applies the comparison to the names at two
  valid indices.
\<close>

theorem header_order_total:
  "headerLe a a
   \<and> (headerLe a b \<and> headerLe b a \<longrightarrow> a = b)
   \<and> (headerLe a b \<and> headerLe b c \<longrightarrow> headerLe a c)
   \<and> (headerLe a b \<or> headerLe b a)
   \<and> (b \<noteq> ''Server'' \<longrightarrow> lessNames ''Server'' b \<and> \<not> lessNames b ''Server'')
   \<and> (a \<noteq> ''Server'' \<and> b \<noteq> ''Server'' \<and> a \<notin> set hopByHopNames \<and> b \<in> set hopByHopNames
        \<longrightarrow> lessNames a b \<and> \<not> lessNames b a)
   \<and> (a \<noteq> ''Server'' \<and> b \<noteq> ''Server'' \<and> (a \<in> set hopByHopNames \<longleftrightarrow> b \<in> set hopByHopNames)
        \<longrightarrow> lessNames a b = (a < b))
   \<and> (i < length h \<and> j < length h \<longrightarrow> Less h i j = Some (lessNames (h ! i) (h ! j)))"
proof -
  have refl: "headerLe a a"
    by (simp add: headerLe_def)
  have antisym: "headerLe a b \<and> headerLe b a \<longrightarrow> a = b"
    using lessNames_antisym by (auto simp: headerLe_def)
  have trans: "headerLe a b \<and> headerLe b c \<longrightarrow> headerLe a c"
    using lessNames_trans [of a b c] by (auto simp: headerLe_def)
  have total: "headerLe a b \<or> headerLe b a"
    using lessNames_total [of a b] by (auto simp: headerLe_def)
  have server: "b \<noteq> ''Server'' \<longrightarrow> lessNames ''Server'' b \<and> \<not> lessNames b ''Server''"
    using lessNames_Server by blast
  have classes: "a \<noteq> ''Server'' \<and> b \<noteq> ''Server'' \<and> a \<notin> set hopByHopNames \<and> b \<in> set hopByHopNames
        \<longrightarrow> lessNames a b \<and> \<not> lessNames b a"
    using lessNames_classes [of a b] by (simp only: endtoend_iff) blast
  have same: "a \<noteq> ''Server'' \<and> b \<noteq> ''Server'' \<and> (a \<in> set hopByHopNames \<longleftrightarrow> b \<in> set hopByHopNames)
        \<longrightarrow> lessNames a b = (a < b)"
    using lessNames_same_class [of a b] by (simp only: endtoend_iff) blast
  have idx: "i < length h \<and> j < length h \<longrightarrow> Less h i j = Some (lessNames (h ! i) (h ! j))"
    by (simp add: Less_def)
  from refl antisym trans total server classes same idx show ?thesis
    by (intro conjI)
qed

theorem header_order_total_witness:
  "headerLe ''Age'' ''Connection'' \<and> headerLe ''Connection'' ''Upgrade''
   \<and> headerLe ''Age'' ''Upgrade''
   \<and> lessNames ''Server'' ''Age'' \<and> \<not> lessNames ''Age'' ''Server''
   \<and> lessNames ''Zeta'' ''Connection'' \<and> \<not> lessNames ''Connection'' ''Zeta''
   \<and> lessNames ''Age'' ''Date'' \<and> \<not> lessNames ''Upgrade'' ''TE''
   \<and> Less [''Zeta'', ''Server'', ''Connection''] 0 2 = Some True"
proof -
  have le1: "headerLe ''Age'' ''Connection''" and le2: "headerLe ''Connection'' ''Upgrade''"
    by (simp_all add: headerLe_def lessNames_def endtoend_def)
  have e2e: "''Zeta'' \<noteq> ''Server'' \<and> ''Connection'' \<noteq> ''Server''
      \<and> ''Zeta'' \<notin> set hopByHopNames \<and> ''Connection'' \<in> set hopByHopNames"
    by (simp add: hopByHopNames_def)
  have same1: "''Age'' \<noteq> ''Server'' \<and> ''Date'' \<noteq> ''Server''
      \<and> (''Age'' \<in> set hopByHopNames \<longleftrightarrow> ''Date'' \<in> set hopByHopNames)"
    by (simp add: hopByHopNames_def)
  have same2: "''Upgrade'' \<noteq> ''Server'' \<and> ''TE'' \<noteq> ''Server''
      \<and> (''Upgrade'' \<in> set hopByHopNames \<longleftrightarrow> ''TE'' \<in> set hopByHopNames)"
    by (simp add: hopByHopNames_def)
  have lt1: "''Age'' < ''Date''" and lt2: "\<not> ''Upgrade'' < ''TE''"
    by simp_all
  have len: "(0::nat) < length [''Zeta'', ''Server'', ''Connection''] \<and> 2 < length [''Zeta'', ''Server'', ''Connection'']"
    by simp
  note t1 = header_order_total [where a = "''Age''" and b = "''Connection''" and c = "''Upgrade''"
      and h = "[''Zeta'', ''Server'', ''Connection'']" and i = 0 and j = 2]
  note t2 = header_order_total [where a = "''Zeta''" and b = "''Connection''" and c = "''Upgrade''"
      and h = "[]" and i = 0 and j = 0]
  note t3 = header_order_total [where a = "''Age''" and b = "''Date''" and c = "''Upgrade''"
      and h = "[]" and i = 0 and j = 0]
  note t4 = header_order_total [where a = "''Upgrade''" and b = "''TE''" and c = "''Upgrade''"
      and h = "[]" and i = 0 and j = 0]
  have "headerLe ''Age'' ''Upgrade''"
    using t1 le1 le2 by blast
  moreover have "lessNames ''Server'' ''Age'' \<and> \<not> lessNames ''Age'' ''Server''"
    using t3 [THEN conjunct2, THEN conjunct2, THEN conjunct2, THEN conjunct2, THEN conjunct1]
      header_order_total [where b = "''Age''"] by simp
  moreover have "lessNames ''Zeta'' ''Connection'' \<and> \<not> lessNames ''Connection'' ''Zeta''"
    using t2 e2e by blast
  moreover have "lessNames ''Age'' ''Date''"
    using t3 same1 lt1 by blast
  moreover have "\<not> lessNames ''Upgrade'' ''TE''"
    using t4 same2 lt2 by blast
  moreover have "Less [''Zeta'', ''Server'', ''Connection''] 0 2 = Some True"
    using t1 len \<open>lessNames ''Zeta'' ''Connection'' \<and> \<not> lessNames ''Connection'' ''Zeta''\<close>
    by simp
  ultimately show ?thesis
    using le1 le2 by blast
qed

section \<open>Rendering a template piece by piece\<close>

lemma IndexByte_None: "c \<notin> set b \<Longrightarrow> IndexByte b c = None"
  by (induction b) auto

lemma IndexByte_first: "c \<notin> set pre \<Longrightarrow> IndexByte (pre @ c # rest) c = Some (length pre)"
  by (induction pre) auto

lemma startsNonLetter_flatten:
  "startsNonLetter ps \<Longrightarrow> flatten ps = [] \<or> \<not> isLetter (hd (flatten ps))"
  by (induction ps rule: startsNonLetter.induct) (auto simp: isLetter_def)

lemma scanEnd_stop: "rest = [] \<or> \<not> isLetter (hd rest) \<Longrightarrow> scanEnd (pre @ rest) (length pre) = length pre"
  by (subst scanEnd.simps) (auto simp: nth_append hd_conv_nth)

lemma scanEnd_run:
  "list_all isLetter name \<Longrightarrow> rest = [] \<or> \<not> isLetter (hd rest) \<Longrightarrow>
   scanEnd (pre @ name @ rest) (length pre) = length pre + length name"
proof (induction name arbitrary: pre)
  case Nil
  then show ?case using scanEnd_stop [of rest pre] by simp
next
  case (Cons x name)
  have "scanEnd (pre @ (x # name) @ rest) (length pre) = scanEnd ((pre @ [x]) @ name @ rest) (length (pre @ [x]))"
    using Cons.prems(1) by (subst scanEnd.simps) (simp add: nth_append)
  also have "\<dots> = length (pre @ [x]) + length name"
    using Cons.prems by (intro Cons.IH) simp_all
  finally show ?case by simp
qed

lemma percents_zero_iff: "percents b = 0 \<longleftrightarrow> CHR ''%'' \<notin> set b"
  by (induction b) auto

lemma CyanString_no_percent: "CHR ''%'' \<notin> set (CyanString nc (Itoa val @ ''ms''))"
  using percents_CyanString [of nc val] percents_zero_iff by blast

lemma printLoop_unfold:
  assumes "IndexByte b CHR ''%'' = Some idx"
    and "idx + 1 < length b"
    and "b ! (idx + 1) = d"
    and "scanEnd b (idx + 2) = e"
    and "take (e - (idx + 2)) (drop (idx + 2) b) = vnam"
    and "take idx b @ replicate (e - idx) CHR '' '' @ drop e b = b1"
    and "FieldByName vars vnam = Some val"
    and "Itoa val @ ''ms'' = v"
  shows "printLoop nc vars b =
          (if d = CHR ''>'' then
             (if e < length v then Inl SliceBoundsOutOfRange
              else printLoop nc vars (take (e - length v) b1 @ CyanString nc v @ drop e b1))
           else if d = CHR ''<'' then
             (if length b1 < idx + length v then Inl SliceBoundsOutOfRange
              else printLoop nc vars (take idx b1 @ CyanString nc v @ drop (idx + length v) b1))
           else Inl (InvalidDirection d))"
  using assms by (subst printLoop.simps) (simp add: Let_def)

lemma hole_take: "k \<le> w \<Longrightarrow> take (length acc + k) (acc @ replicate w c @ rest) = acc @ replicate k c"
  by (simp add: min_def)

lemma hole_drop: "drop (length acc + w) (acc @ replicate w c @ rest) = rest"
  by simp

lemma hole_drop2: "k \<le> w \<Longrightarrow> drop (length acc + k) (acc @ replicate w c @ rest) = replicate (w - k) c @ rest"
  by simp

lemma printLoop_hole:
  assumes acc: "CHR ''%'' \<notin> set acc"
    and d: "d = CHR ''>'' \<or> d = CHR ''<''"
    and n: "list_all isLetter n"
    and f: "FieldByName vars n = Some val"
    and w: "length (Itoa val @ ''ms'') \<le> 2 + length n"
    and r: "rest = [] \<or> \<not> isLetter (hd rest)"
  shows "printLoop nc vars (acc @ CHR ''%'' # d # n @ rest) =
         printLoop nc vars
           (acc @ (if d = CHR ''>''
                   then replicate (2 + length n - length (Itoa val @ ''ms'')) CHR '' '' @ CyanString nc (Itoa val @ ''ms'')
                   else CyanString nc (Itoa val @ ''ms'') @ replicate (2 + length n - length (Itoa val @ ''ms'')) CHR '' '')
                @ rest)"
proof -
  let ?b = "acc @ CHR ''%'' # d # n @ rest"
  let ?v = "Itoa val @ ''ms''"
  let ?e = "length acc + 2 + length n"
  let ?b1 = "acc @ replicate (2 + length n) CHR '' '' @ rest"
  have idx: "IndexByte ?b CHR ''%'' = Some (length acc)"
    using acc by (rule IndexByte_first)
  have "scanEnd ((acc @ [CHR ''%'', d]) @ n @ rest) (length (acc @ [CHR ''%'', d])) = length (acc @ [CHR ''%'', d]) + length n"
    using n r by (rule scanEnd_run)
  then have e: "scanEnd ?b (length acc + 2) = ?e"
    by simp
  have len: "length acc + 1 < length ?b"
    by simp
  have dir: "?b ! (length acc + 1) = d"
    by (simp add: nth_append)
  have vnam: "take (?e - (length acc + 2)) (drop (length acc + 2) ?b) = n"
    by simp
  have b1: "take (length acc) ?b @ replicate (?e - length acc) CHR '' '' @ drop ?e ?b = ?b1"
    by simp
  note step = printLoop_unfold [OF idx len dir e vnam b1 f refl, of nc]
  let ?w = "2 + length n"
  have e': "?e = length acc + ?w" by simp
  show ?thesis
  proof (cases "d = CHR ''>''")
    case True
    have "?e - length ?v = length acc + (?w - length ?v)"
      using w by arith
    then have tk: "take (?e - length ?v) ?b1 = acc @ replicate (?w - length ?v) CHR '' ''"
      using hole_take [of "?w - length ?v" ?w acc "CHR '' ''" rest] by simp
    have dr: "drop ?e ?b1 = rest"
      unfolding e' by (rule hole_drop)
    have nlt: "\<not> ?e < length ?v"
      using w by arith
    have "printLoop nc vars ?b =
            printLoop nc vars (take (?e - length ?v) ?b1 @ CyanString nc ?v @ drop ?e ?b1)"
      using step True nlt by (simp only: if_True if_False simp_thms)
    then show ?thesis
      using True by (simp only: tk dr if_True simp_thms append_assoc)
  next
    case False
    then have lt: "d = CHR ''<''" using d by simp
    have tk: "take (length acc) ?b1 = acc"
      by simp
    have dr: "drop (length acc + length ?v) ?b1 = replicate (?w - length ?v) CHR '' '' @ rest"
      using w by (intro hole_drop2)
    have nlt: "\<not> length ?b1 < length acc + length ?v"
      using w by simp
    have "printLoop nc vars ?b =
            printLoop nc vars (take (length acc) ?b1 @ CyanString nc ?v @ drop (length acc + length ?v) ?b1)"
      using step False lt nlt by (simp only: if_True if_False simp_thms)
    then show ?thesis
      using False by (simp only: tk dr if_False simp_thms append_assoc)
  qed
qed

lemma printLoop_pieces:
  "fits vars ps \<Longrightarrow> CHR ''%'' \<notin> set acc \<Longrightarrow>
   printLoop nc vars (acc @ flatten ps) = Inr (acc @ fill nc vars ps)"
proof (induction ps arbitrary: acc rule: fits.induct)
  case (1 vars)
  then show ?case
    by (subst printLoop.simps) (simp add: IndexByte_None)
next
  case (2 vars s ps)
  then have "printLoop nc vars ((acc @ s) @ flatten ps) = Inr ((acc @ s) @ fill nc vars ps)"
    by (intro "2.IH") simp_all
  then show ?case by simp
next
  case (3 vars d n ps)
  from "3.prems" obtain val where f: "FieldByName vars n = Some val"
    and w: "length (Itoa val @ ''ms'') \<le> 2 + length n"
    by (auto split: option.splits)
  let ?mid = "if d = CHR ''>''
              then replicate (2 + length n - length (Itoa val @ ''ms'')) CHR '' '' @ CyanString nc (Itoa val @ ''ms'')
              else CyanString nc (Itoa val @ ''ms'') @ replicate (2 + length n - length (Itoa val @ ''ms'')) CHR '' ''"
  have rest: "flatten ps = [] \<or> \<not> isLetter (hd (flatten ps))"
    using "3.prems" by (intro startsNonLetter_flatten) simp
  have "printLoop nc vars (acc @ CHR ''%'' # d # n @ flatten ps) = printLoop nc vars (acc @ ?mid @ flatten ps)"
    using "3.prems" f w rest by (intro printLoop_hole) simp_all
  also have "\<dots> = printLoop nc vars ((acc @ ?mid) @ flatten ps)"
    by simp
  also have "\<dots> = Inr ((acc @ ?mid) @ fill nc vars ps)"
    using "3.prems" CyanString_no_percent [of nc val] by (intro "3.IH") auto
  finally show ?case
    using f by (simp add: Let_def)
qed

section \<open>The encrypted-scheme diagram at fixed timing values\<close>

lemma flatten_httpsPieces: "flatten httpsPieces = httpsTemplate"
  by (simp add: httpsPieces_def httpsTemplate_def)

lemma Itoa_fixed:
  "Itoa 5 = ''5''" "Itoa 10 = ''10''" "Itoa 20 = ''20''" "Itoa 50 = ''50''" "Itoa 100 = ''100''"
  "Itoa 15 = ''15''" "Itoa 35 = ''35''" "Itoa 85 = ''85''" "Itoa 185 = ''185''"
  by code_simp+

lemma fits_httpsPieces: "fits fixedTiming httpsPieces"
  by (simp add: httpsPieces_def fixedTiming_def FieldByName_def Itoa_fixed isLetter_def)

lemma printTemplate_httpsPieces:
  "printTemplate nc httpsTemplate fixedTiming = Inr (fill nc fixedTiming httpsPieces)"
  using printLoop_pieces [OF fits_httpsPieces, of "[]" nc]
  by (simp add: printTemplate_def flatten_httpsPieces)

lemma char_classes:
  "\<not> isLetter CHR ''\<newline>''"
  "\<not> isDigit CHR ''\<newline>''"
  "\<not> isLetter CHR '' ''"
  "\<not> isDigit CHR '' ''"
  "\<not> isLetter CHR ''0''"
  "isDigit CHR ''0''"
  "\<not> isLetter CHR ''1''"
  "isDigit CHR ''1''"
  "\<not> isLetter CHR ''2''"
  "isDigit CHR ''2''"
  "\<not> isLetter CHR ''3''"
  "isDigit CHR ''3''"
  "\<not> isLetter CHR ''5''"
  "isDigit CHR ''5''"
  "\<not> isLetter CHR ''8''"
  "isDigit CHR ''8''"
  "\<not> isLetter CHR '':''"
  "\<not> isDigit CHR '':''"
  "isLetter CHR ''C''"
  "\<not> isDigit CHR ''C''"
  "isLetter CHR ''D''"
  "\<not> isDigit CHR ''D''"
  "isLetter CHR ''H''"
  "\<not> isDigit CHR ''H''"
  "isLetter CHR ''L''"
  "\<not> isDigit CHR ''L''"
  "isLetter CHR ''N''"
  "\<not> isDigit CHR ''N''"
  "isLetter CHR ''P''"
  "\<not> isDigit CHR ''P''"
  "isLetter CHR ''S''"
  "\<not> isDigit CHR ''S''"
  "isLetter CHR ''T''"
  "\<not> isDigit CHR ''T''"
  "\<not> isLetter CHR ''[''"
  "\<not> isDigit CHR ''[''"
  "\<not> isLetter CHR '']''"
  "\<not> isDigit CHR '']''"
  "isLetter CHR ''a''"
  "\<not> isDigit CHR ''a''"
  "isLetter CHR ''c''"
  "\<not> isDigit CHR ''c''"
  "isLetter CHR ''d''"
  "\<not> isDigit CHR ''d''"
  "isLetter CHR ''e''"
  "\<not> isDigit CHR ''e''"
  "isLetter CHR ''f''"
  "\<not> isDigit CHR ''f''"
  "isLetter CHR ''g''"
  "\<not> isDigit CHR ''g''"
  "isLetter CHR ''h''"
  "\<not> isDigit CHR ''h''"
  "isLetter CHR ''i''"
  "\<not> isDigit CHR ''i''"
  "isLetter CHR ''k''"
  "\<not> isDigit CHR ''k''"
  "isLetter CHR ''l''"
  "\<not> isDigit CHR ''l''"
  "isLetter CHR ''m''"
  "\<not> isDigit CHR ''m''"
  "isLetter CHR ''n''"
  "\<not> isDigit CHR ''n''"
  "isLetter CHR ''o''"
  "\<not> isDigit CHR ''o''"
  "isLetter CHR ''p''"
  "\<not> isDigit CHR ''p''"
  "isLetter CHR ''r''"
  "\<not> isDigit CHR ''r''"
  "isLetter CHR ''s''"
  "\<not> isDigit CHR ''s''"
  "isLetter CHR ''t''"
  "\<not> isDigit CHR ''t''"
  "isLetter CHR ''u''"
  "\<not> isDigit CHR ''u''"
  "isLetter CHR ''v''"
  "\<not> isDigit CHR ''v''"
  "\<not> isLetter CHR ''|''"
  "\<not> isDigit CHR ''|''"
  by (simp_all add: isLetter_def isDigit_def)

lemma fill_plain:
  "fill True fixedTiming httpsPieces =
   ''  DNS Lookup   TCP Connection   TLS Handshake   Server Processing   Content Transfer\<newline>[      5ms  |          10ms  |         20ms  |             50ms  |           100ms  ]\<newline>            |                |               |                   |                  |\<newline>   namelookup:5ms            |               |                   |                  |\<newline>                       connect:15ms          |                   |                  |\<newline>                                   pretransfer:35ms              |                  |\<newline>                                                     starttransfer:85ms             |\<newline>                                                                                total:185ms  \<newline>''"
  by (simp add: httpsPieces_def fixedTiming_def FieldByName_def Itoa_fixed CyanString_def
      eval_nat_numeral)

lemma fill_colour:
  "visible (fill False fixedTiming httpsPieces) = fill True fixedTiming httpsPieces"
  by (simp add: httpsPieces_def fixedTiming_def FieldByName_def Itoa_fixed CyanString_def
      eval_nat_numeral visible_def)

lemma tokens_plain:
  "numericTokens
   ''  DNS Lookup   TCP Connection   TLS Handshake   Server Processing   Content Transfer\<newline>[      5ms  |          10ms  |         20ms  |             50ms  |           100ms  ]\<newline>            |                |               |                   |                  |\<newline>   namelookup:5ms            |               |                   |                  |\<newline>                       connect:15ms          |                   |                  |\<newline>                                   pretransfer:35ms              |                  |\<newline>                                                     starttransfer:85ms             |\<newline>                                                                                total:185ms  \<newline>''
   = [''5ms'', ''10ms'', ''20ms'', ''50ms'', ''100ms'', ''5ms'', ''15ms'', ''35ms'', ''85ms'', ''185ms'']"
  by (simp add: numericTokens_def char_classes)

text \<open>
  C2. With the values DNS 5, TCP 10, TLS 20, Server 50, Transfer 100, Lookup 5,
  Connect 15, PreTransfer 35, StartTransfer 85 and Total 185, \<open>printTemplate\<close> on the
  encrypted-scheme template returns without panic. The template is the literal text
  and placeholders of \<open>httpsPieces\<close>, and the output is that text with every
  \<open>%>Name\<close> replaced, in its own span, by blanks followed by the value (so the value
  ends where the placeholder ended) and every \<open>%<Name\<close> by the value followed by
  blanks (so the value starts where the placeholder started). With colour disabled
  the output is the diagram below, whose numeric tokens from left to right are 5ms,
  10ms, 20ms, 50ms, 100ms, 5ms, 15ms, 35ms, 85ms, 185ms; with colour enabled the same
  text is what remains visible once the escape sequences are removed.
\<close>

theorem printTemplate_https_fixed:
  "flatten httpsPieces = httpsTemplate
   \<and> printTemplate True httpsTemplate fixedTiming = Inr (fill True fixedTiming httpsPieces)
   \<and> printTemplate False httpsTemplate fixedTiming = Inr (fill False fixedTiming httpsPieces)
   \<and> visible (fill False fixedTiming httpsPieces) = fill True fixedTiming httpsPieces
   \<and> fill True fixedTiming httpsPieces =
   ''  DNS Lookup   TCP Connection   TLS Handshake   Server Processing   Content Transfer\<newline>[      5ms  |          10ms  |         20ms  |             50ms  |           100ms  ]\<newline>            |                |               |                   |                  |\<newline>   namelookup:5ms            |               |                   |                  |\<newline>                       connect:15ms          |                   |                  |\<newline>                                   pretransfer:35ms              |                  |\<newline>                                                     starttransfer:85ms             |\<newline>                                                                                total:185ms  \<newline>''
   \<and> numericTokens (fill True fixedTiming httpsPieces) =
     [''5ms'', ''10ms'', ''20ms'', ''50ms'', ''100ms'', ''5ms'', ''15ms'', ''35ms'', ''85ms'', ''185ms'']"
proof -
  have "numericTokens (fill True fixedTiming httpsPieces) =
     [''5ms'', ''10ms'', ''20ms'', ''50ms'', ''100ms'', ''5ms'', ''15ms'', ''35ms'', ''85ms'', ''185ms'']"
    by (simp only: fill_plain tokens_plain)
  then show ?thesis
    using flatten_httpsPieces printTemplate_httpsPieces [of True]
      printTemplate_httpsPieces [of False] fill_colour fill_plain
    by (intro conjI)
qed

section \<open>Ordering of the cumulative timestamps\<close>

lemma Sub_nonneg: "u \<le> a \<Longrightarrow> 0 \<le> Sub a (Some u)"
  by (simp add: Sub_def maxDuration_def minDuration_def)

lemma Sub_mono: "a \<le> b \<Longrightarrow> Sub a (Some u) \<le> Sub b (Some u)"
  by (simp add: Sub_def maxDuration_def minDuration_def)

lemma sdiv_nonneg: "0 \<le> x \<Longrightarrow> x sdiv Millisecond = x div Millisecond"
  by (simp add: signed_divide_int_def Millisecond_def sgn_if)

lemma msSince_nonneg: "u \<le> a \<Longrightarrow> 0 \<le> msSince a (Some u)"
  using Sub_nonneg [of u a] by (simp add: msSince_def sdiv_nonneg) (simp add: Millisecond_def)

lemma msSince_mono: "u \<le> a \<Longrightarrow> a \<le> b \<Longrightarrow> msSince a (Some u) \<le> msSince b (Some u)"
proof -
  assume ua: "u \<le> a" and ab: "a \<le> b"
  have a0: "0 \<le> Sub a (Some u)" and b0: "0 \<le> Sub b (Some u)"
    using ua ab Sub_nonneg [of u a] Sub_nonneg [of u b] by simp_all
  have "Sub a (Some u) div Millisecond \<le> Sub b (Some u) div Millisecond"
    using Sub_mono [OF ab, of u] by (intro zdiv_mono1) (simp_all add: Millisecond_def)
  then show ?thesis
    by (simp only: msSince_def sdiv_nonneg [OF a0] sdiv_nonneg [OF b0])
qed

lemma clock_nonneg: "mono clock \<Longrightarrow> k \<le> i \<Longrightarrow> 0 \<le> msSince (clock i) (Some (clock k))"
  by (intro msSince_nonneg) (simp add: monoD)

lemma clock_mono:
  "mono clock \<Longrightarrow> k \<le> i \<Longrightarrow> i \<le> j \<Longrightarrow>
   msSince (clock i) (Some (clock k)) \<le> msSince (clock j) (Some (clock k))"
  by (intro msSince_mono) (simp_all add: monoD)

lemma callback_collected:
  assumes m: "mono clock"
    and c: "collected clock p s"
    and a: "advance p e = Some p'"
    and e: "\<not> isTLS e"
    and r: "callback js clock e s = Inr s'"
  shows "collected clock p' s'"
proof (cases p)
  case Idle
  with a have "e = GetConn" "p' = Acquiring" by (cases e; simp)+
  with Idle c r show ?thesis
    by (auto simp: collected_def Let_def)
next
  case Acquiring
  from c Acquiring obtain k where k: "k < ticks s" "tStart s = Some (clock k)"
    and f: "TLS (Timing (report s)) = 0" "Lookup (Timing (report s)) = 0" "Connect (Timing (report s)) = 0"
    by (auto simp: collected_def Let_def)
  from a Acquiring consider "e = DNSStart" "p' = Resolving" | "e = ConnectStart" "p' = Connecting"
    | "e = GotConn" "p' = Obtained"
    by (cases e; simp)
  then show ?thesis
  proof cases
    case 1
    with r k f show ?thesis
      by (auto simp: collected_def Let_def intro!: exI [of _ k])
  next
    case 2
    with r k f show ?thesis
      using clock_nonneg [OF m, of k "ticks s"] clock_nonneg [OF m, of k "ticks s + 1"]
      by (auto simp: collected_def Let_def split: if_splits intro!: exI [of _ k])
  next
    case 3
    with r k f show ?thesis
      using clock_nonneg [OF m, of k "ticks s + 1"] clock_mono [OF m, of k "ticks s + 1" "ticks s + 2"]
      by (auto simp: collected_def Let_def setTiming_def intro!: exI [of _ k])
  qed
next
  case Resolving
  from c Resolving obtain k where k: "k < ticks s" "tStart s = Some (clock k)"
    and f: "TLS (Timing (report s)) = 0"
    by (auto simp: collected_def Let_def)
  from a Resolving have "e = DNSDone" "p' = Resolved" by (cases e; simp)+
  with r k f show ?thesis
    using clock_nonneg [OF m, of k "ticks s + 1"] clock_mono [OF m, of k "ticks s + 1" "ticks s + 2"]
    by (auto simp: collected_def Let_def setTiming_def intro!: exI [of _ k])
next
  case Resolved
  from c Resolved obtain k where k: "k < ticks s" "tStart s = Some (clock k)"
    and f: "TLS (Timing (report s)) = 0" "0 \<le> Lookup (Timing (report s))"
       "Lookup (Timing (report s)) \<le> msSince (clock (ticks s)) (Some (clock k))"
    by (auto simp: collected_def Let_def)
  from a Resolved have "e = ConnectStart" "p' = Connecting" by (cases e; simp)+
  with r k f show ?thesis
    using clock_mono [OF m, of k "ticks s" "ticks s + 1"]
    by (auto simp: collected_def Let_def split: if_splits intro!: exI [of _ k])
next
  case Connecting
  from c Connecting obtain k where k: "k < ticks s" "tStart s = Some (clock k)"
    and f: "TLS (Timing (report s)) = 0" "0 \<le> Lookup (Timing (report s))"
       "Lookup (Timing (report s)) \<le> msSince (clock (ticks s)) (Some (clock k))"
    by (auto simp: collected_def Let_def)
  from a Connecting consider "e = ConnectStart" "p' = Connecting"
    | addr failed where "e = ConnectDone addr failed" "p' = Connected"
    by (cases e; simp)
  then show ?thesis
  proof cases
    case 1
    with r k f show ?thesis
      using clock_mono [OF m, of k "ticks s" "ticks s + 1"]
      by (auto simp: collected_def Let_def split: if_splits intro!: exI [of _ k])
  next
    case 2
    with r k f show ?thesis
      using clock_mono [OF m, of k "ticks s" "ticks s + 1"] clock_mono [OF m, of k "ticks s + 1" "ticks s + 2"]
      by (auto simp: collected_def Let_def setTiming_def split: if_splits intro!: exI [of _ k])
  qed
next
  case Connected
  from c Connected obtain k where k: "k < ticks s" "tStart s = Some (clock k)"
    and f: "TLS (Timing (report s)) = 0" "0 \<le> Lookup (Timing (report s))"
       "Lookup (Timing (report s)) \<le> Connect (Timing (report s))"
       "Connect (Timing (report s)) \<le> msSince (clock (ticks s)) (Some (clock k))"
    by (auto simp: collected_def Let_def)
  from a Connected e consider "e = ConnectStart" "p' = Connecting"
    | addr failed where "e = ConnectDone addr failed" "p' = Connected"
    | "e = GotConn" "p' = Obtained"
    by (cases e; simp add: isTLS_def)
  then show ?thesis
  proof cases
    case 1
    with r k f show ?thesis
      using clock_mono [OF m, of k "ticks s" "ticks s + 1"]
      by (auto simp: collected_def Let_def split: if_splits intro!: exI [of _ k])
  next
    case 2
    with r k f show ?thesis
      using clock_mono [OF m, of k "ticks s" "ticks s + 1"] clock_mono [OF m, of k "ticks s + 1" "ticks s + 2"]
      by (auto simp: collected_def Let_def setTiming_def split: if_splits intro!: exI [of _ k])
  next
    case 3
    with r k f show ?thesis
      using clock_mono [OF m, of k "ticks s" "ticks s + 1"] clock_mono [OF m, of k "ticks s + 1" "ticks s + 2"]
      by (auto simp: collected_def Let_def setTiming_def intro!: exI [of _ k])
  qed
next
  case Handshaking
  with a e show ?thesis by (cases e; simp add: isTLS_def)
next
  case Secured
  from c Secured obtain k where k: "k < ticks s" "tStart s = Some (clock k)"
    and f: "TLS (Timing (report s)) = 0" "0 \<le> Lookup (Timing (report s))"
       "Lookup (Timing (report s)) \<le> Connect (Timing (report s))"
       "Connect (Timing (report s)) \<le> msSince (clock (ticks s)) (Some (clock k))"
    by (auto simp: collected_def Let_def)
  from a Secured have "e = GotConn" "p' = Obtained" by (cases e; simp)+
  with r k f show ?thesis
    using clock_mono [OF m, of k "ticks s" "ticks s + 1"] clock_mono [OF m, of k "ticks s + 1" "ticks s + 2"]
    by (auto simp: collected_def Let_def setTiming_def intro!: exI [of _ k])
next
  case Obtained
  from c Obtained obtain k where k: "k < ticks s" "tStart s = Some (clock k)"
    and f: "TLS (Timing (report s)) = 0" "0 \<le> Lookup (Timing (report s))"
       "Lookup (Timing (report s)) \<le> Connect (Timing (report s))"
       "Connect (Timing (report s)) \<le> PreTransfer (Timing (report s))"
       "PreTransfer (Timing (report s)) \<le> msSince (clock (ticks s)) (Some (clock k))"
    by (auto simp: collected_def Let_def)
  from a Obtained have "e = GotFirstResponseByte" "p' = Transferring" by (cases e; simp)+
  with r k f show ?thesis
    using clock_mono [OF m, of k "ticks s" "ticks s + 2"] clock_mono [OF m, of k "ticks s + 2" "ticks s + 3"]
    by (auto simp: collected_def Let_def setTiming_def intro!: exI [of _ k])
next
  case Transferring
  with a show ?thesis by simp
qed


lemma callbacks_collected:
  assumes "mono clock"
  shows "collected clock p s \<Longrightarrow> lifecycle p es = Some q \<Longrightarrow> list_all (\<lambda>e. \<not> isTLS e) es \<Longrightarrow>
         callbacks js clock es s = Inr s' \<Longrightarrow> collected clock q s'"
proof (induction es arbitrary: p s)
  case Nil
  then show ?case by simp
next
  case (Cons e es)
  from Cons.prems(2) obtain p' where a: "advance p e = Some p'" and l: "lifecycle p' es = Some q"
    by (auto split: option.splits)
  from Cons.prems(4) obtain s1 where r: "callback js clock e s = Inr s1"
    and rs: "callbacks js clock es s1 = Inr s'"
    by (auto split: sum.splits)
  have "collected clock p' s1"
    using assms Cons.prems(1) a _ r by (rule callback_collected) (use Cons.prems(3) in simp)
  then show ?case
    using l Cons.prems(3) rs by (intro Cons.IH [of p' s1]) simp_all
qed

lemma collected_newTracer: "collected clock Idle (newTracer k)"
  by (simp add: collected_def newTracer_def emptyReport_def emptyTiming_def)

text \<open>
  C1. For every exchange over a plaintext connection that ends with a response (the
  events come in the library's order, none of them is a handshake event, no callback
  aborts), with a clock whose readings never decrease, the timing that the iteration
  reports has \<open>TLS = 0\<close> and cumulative timestamps that are non-negative and ordered:
  \<open>0 \<le> Lookup \<le> Connect \<le> PreTransfer \<le> StartTransfer \<le> Total\<close>.
\<close>

theorem plaintext_timing_ordered:
  assumes "mono clock"
    and "plaintextExchange es"
    and "timedExchange js clock es k = Inr s"
  shows "TLS (Timing (report s)) = 0
    \<and> 0 \<le> Lookup (Timing (report s))
    \<and> Lookup (Timing (report s)) \<le> Connect (Timing (report s))
    \<and> Connect (Timing (report s)) \<le> PreTransfer (Timing (report s))
    \<and> PreTransfer (Timing (report s)) \<le> StartTransfer (Timing (report s))
    \<and> StartTransfer (Timing (report s)) \<le> Total (Timing (report s))"
proof -
  from assms(3) obtain s1 where cb: "callbacks js clock es (newTracer k) = Inr s1"
    and s: "s = afterReadBody clock s1"
    by (auto simp: timedExchange_def split: sum.splits)
  have "collected clock Transferring s1"
    using assms(1) collected_newTracer _ _ cb
    by (rule callbacks_collected) (use assms(2) in \<open>simp_all add: plaintextExchange_def\<close>)
  then obtain j where j: "j < ticks s1" "tStart s1 = Some (clock j)"
    and f: "TLS (Timing (report s1)) = 0" "0 \<le> Lookup (Timing (report s1))"
       "Lookup (Timing (report s1)) \<le> Connect (Timing (report s1))"
       "Connect (Timing (report s1)) \<le> PreTransfer (Timing (report s1))"
       "PreTransfer (Timing (report s1)) \<le> StartTransfer (Timing (report s1))"
       "StartTransfer (Timing (report s1)) \<le> msSince (clock (ticks s1)) (Some (clock j))"
    by (auto simp: collected_def Let_def)
  have "msSince (clock (ticks s1)) (Some (clock j)) \<le> msSince (clock (ticks s1 + 1)) (Some (clock j))"
    using j(1) by (intro clock_mono [OF assms(1)]) simp_all
  with j f show ?thesis
    by (simp add: s afterReadBody_def setTiming_def)
qed

theorem plaintext_timing_ordered_witness:
  "mono (\<lambda>k. int k * 7000000)
   \<and> plaintextExchange [GetConn, DNSStart, DNSDone, ConnectStart, ConnectDone ''192.0.2.1:80'' False,
        GotConn, GotFirstResponseByte]
   \<and> (case timedExchange True (\<lambda>k. int k * 7000000)
          [GetConn, DNSStart, DNSDone, ConnectStart, ConnectDone ''192.0.2.1:80'' False,
           GotConn, GotFirstResponseByte] 0 of
        Inl f \<Rightarrow> False
      | Inr s \<Rightarrow>
          Timing (report s) = \<lparr>DNS = 7, TCP = 7, TLS = 0, Server = 21, Transfer = 21,
            Lookup = 21, Connect = 42, PreTransfer = 56, StartTransfer = 77, Total = 91\<rparr>
          \<and> TLS (Timing (report s)) = 0
          \<and> 0 \<le> Lookup (Timing (report s))
          \<and> Lookup (Timing (report s)) \<le> Connect (Timing (report s))
          \<and> Connect (Timing (report s)) \<le> PreTransfer (Timing (report s))
          \<and> PreTransfer (Timing (report s)) \<le> StartTransfer (Timing (report s))
          \<and> StartTransfer (Timing (report s)) \<le> Total (Timing (report s)))"
proof -
  let ?clock = "\<lambda>k. int k * 7000000"
  let ?es = "[GetConn, DNSStart, DNSDone, ConnectStart, ConnectDone ''192.0.2.1:80'' False,
        GotConn, GotFirstResponseByte]"
  have m: "mono ?clock"
    by (simp add: mono_def)
  have p: "plaintextExchange ?es"
    by (simp add: plaintextExchange_def isTLS_def)
  obtain s where s: "timedExchange True ?clock ?es 0 = Inr s"
    and t: "Timing (report s) = \<lparr>DNS = 7, TCP = 7, TLS = 0, Server = 21, Transfer = 21,
            Lookup = 21, Connect = 42, PreTransfer = 56, StartTransfer = 77, Total = 91\<rparr>"
    by (simp add: timedExchange_def newTracer_def afterReadBody_def setTiming_def emptyReport_def
        emptyTiming_def msSince_def Sub_def maxDuration_def minDuration_def Millisecond_def
        signed_divide_int_def)
  show ?thesis
    using plaintext_timing_ordered [OF m p s] m p s t by simp
qed

section \<open>Scheme of a target given without one\<close>

text \<open>
  C8. When \<open>url.Parse\<close> finds no scheme in the target (to which \<open>parseURL\<close> has
  prefixed \<open>//\<close> unless it contains \<open>://\<close> or starts with \<open>//\<close>), \<open>parseURL\<close>
  returns the parsed URL with scheme \<open>https\<close>, except when its host ends in
  \<open>:80\<close>, where the scheme is \<open>http\<close>.
\<close>

theorem parseURL_default_scheme:
  assumes "parse (if \<not> Contains uri ''://'' \<and> \<not> prefix ''//'' uri then ''//'' @ uri else uri) = Some u"
    and "Scheme u = []"
  shows "parseURL parse uri =
           Inr (u\<lparr>Scheme := (if suffix '':80'' (Host u) then ''http'' else ''https'')\<rparr>)"
  using assms by (simp add: parseURL_def Let_def)

theorem parseURL_default_scheme_witness:
  "parseNetworkPath ''//example.com'' = Some \<lparr>Scheme = [], Host = ''example.com'', Path = [], RawQuery = []\<rparr>
   \<and> parseURL parseNetworkPath ''example.com''
       = Inr \<lparr>Scheme = ''https'', Host = ''example.com'', Path = [], RawQuery = []\<rparr>
   \<and> parseNetworkPath ''//example.com:80'' = Some \<lparr>Scheme = [], Host = ''example.com:80'', Path = [], RawQuery = []\<rparr>
   \<and> parseURL parseNetworkPath ''example.com:80''
       = Inr \<lparr>Scheme = ''http'', Host = ''example.com:80'', Path = [], RawQuery = []\<rparr>
   \<and> parseURL parseNetworkPath ''example.com:8080/a?b''
       = Inr \<lparr>Scheme = ''https'', Host = ''example.com:8080'', Path = ''/a'', RawQuery = ''b''\<rparr>"
proof -
  have p1: "parseNetworkPath ''//example.com'' = Some \<lparr>Scheme = [], Host = ''example.com'', Path = [], RawQuery = []\<rparr>"
    by (simp add: parseNetworkPath_def)
  have p2: "parseNetworkPath ''//example.com:80'' = Some \<lparr>Scheme = [], Host = ''example.com:80'', Path = [], RawQuery = []\<rparr>"
    by (simp add: parseNetworkPath_def)
  have p3: "parseNetworkPath ''//example.com:8080/a?b'' = Some \<lparr>Scheme = [], Host = ''example.com:8080'', Path = ''/a'', RawQuery = ''b''\<rparr>"
    by (simp add: parseNetworkPath_def)
  have c1: "\<not> Contains ''example.com'' ''://'' \<and> \<not> prefix ''//'' ''example.com''"
    and c2: "\<not> Contains ''example.com:80'' ''://'' \<and> \<not> prefix ''//'' ''example.com:80''"
    and c3: "\<not> Contains ''example.com:8080/a?b'' ''://'' \<and> \<not> prefix ''//'' ''example.com:8080/a?b''"
    by simp_all
  have s1: "\<not> suffix '':80'' ''example.com''" and s2: "suffix '':80'' ''example.com:80''"
    and s3: "\<not> suffix '':80'' ''example.com:8080''"
    by (simp_all add: suffix_def)
  show ?thesis
    using parseURL_default_scheme [of parseNetworkPath "''example.com''"] p1 c1 s1
      parseURL_default_scheme [of parseNetworkPath "''example.com:80''"] p2 c2 s2
      parseURL_default_scheme [of parseNetworkPath "''example.com:8080/a?b''"] p3 c3 s3
    by simp
qed

section \<open>The CA bundle\<close>

text \<open>
  C6, at a bundle that can be read and holds no certificate: \<open>readCACerts\<close> returns
  the empty pool and no error, so \<open>visit\<close> logs no warning and verification is
  against the empty pool, not against the system's roots. A bundle that cannot be read
  gives the nil pool and the warning.
\<close>

theorem malformed_cacert_empty_pool:
  "readCACerts ((plainWorld net)\<lparr>readFile := (\<lambda>f. if f = ''ca.pem'' then Some ''garbage'' else None)\<rparr>) ''ca.pem''
     = (Some [], None)
   \<and> fst (enter ((plainWorld net)\<lparr>readFile := (\<lambda>f. if f = ''ca.pem'' then Some ''garbage'' else None)\<rparr>)
             (defaultFlags\<lparr>cacert := ''ca.pem''\<rparr>)
             \<lparr>Scheme = ''https'', Host = ''example.com'', Path = [], RawQuery = []\<rparr> startRun)
     = Inr (\<lparr>Method = ''GET'', reqURL = \<lparr>Scheme = ''https'', Host = ''example.com'', Path = [], RawQuery = []\<rparr>,
              reqHost = ''example.com'', reqHeader = []\<rparr>,
            \<lparr>dialNetwork = ''tcp'',
              TLSClientConfig = Some \<lparr>ServerName = ''example.com'', InsecureSkipVerify = False,
                Certificates = [], RootCAs = Some []\<rparr>\<rparr>)
   \<and> filter (\<lambda>a. case a of Warned m \<Rightarrow> True | _ \<Rightarrow> False)
        (trail (snd (enter ((plainWorld net)\<lparr>readFile := (\<lambda>f. if f = ''ca.pem'' then Some ''garbage'' else None)\<rparr>)
             (defaultFlags\<lparr>cacert := ''ca.pem''\<rparr>)
             \<lparr>Scheme = ''https'', Host = ''example.com'', Path = [], RawQuery = []\<rparr> startRun))) = []
   \<and> readCACerts (plainWorld net) ''ca.pem'' = (None, Some ''failed to read CA certificate file'')
   \<and> filter (\<lambda>a. case a of Warned m \<Rightarrow> True | _ \<Rightarrow> False)
        (trail (snd (enter (plainWorld net) (defaultFlags\<lparr>cacert := ''ca.pem''\<rparr>)
             \<lparr>Scheme = ''https'', Host = ''example.com'', Path = [], RawQuery = []\<rparr> startRun)))
       = [Warned ''warning: failed to read CA certificates'']"
  by (simp add: readCACerts_def readClientCert_def enter_def plainWorld_def defaultFlags_def
      newRequest_def createBody_def startRun_def emit_def Let_def)

section \<open>Reading the body\<close>

lemma readResponseBody_cases:
  "readResponseBody W F req resp = (acts, r) \<Longrightarrow>
   (acts = [] \<and> (r = Inr [] \<or> r = Inl NoRemoteFilename \<or> (\<exists>n. r = Inl (UnableToCreateFile n))))
   \<or> (\<exists>n. acts = [CreatedFile n, CopiedBody True]
          \<and> (r = Inl FailedToReadResponseBody \<or> r = Inr (CyanString (noColor W) ''Body read'')))
   \<or> (acts = [CopiedBody False] \<and> r = Inr (CyanString (noColor W) ''Body discarded''))"
  by (auto simp: readResponseBody_def Let_def split: if_splits)

text \<open>
  C7, as the code has it. The body is copied out exactly when the method is not
  \<open>HEAD\<close>, the response is not a redirect, and the run has not been ended by the
  output file: no remote file name, or a file that cannot be created. A response is
  a redirect exactly when its status code is in [300, 400), and with the method
  \<open>HEAD\<close> nothing is read, created or copied, whatever \<open>-O\<close> and \<open>-o\<close> say.
\<close>

theorem body_drained_iff:
  "((\<exists>b. CopiedBody b \<in> set (fst (readResponseBody W F req resp))) \<longleftrightarrow>
      (Method req \<noteq> ''HEAD'' \<and> \<not> isRedirect resp
       \<and> snd (readResponseBody W F req resp) \<noteq> Inl NoRemoteFilename
       \<and> (\<forall>n. snd (readResponseBody W F req resp) \<noteq> Inl (UnableToCreateFile n))))
   \<and> (isRedirect resp \<longleftrightarrow> 300 \<le> StatusCode resp \<and> StatusCode resp < 400)
   \<and> (Method req = ''HEAD'' \<longrightarrow> readResponseBody W F req resp = ([], Inr []))"
  by (auto simp: readResponseBody_def isRedirect_def Let_def CyanString_def)

theorem body_drained_iff_witness:
  "(\<exists>b. CopiedBody b \<in> set (fst (readResponseBody (plainWorld (\<lambda>r. answer 200 ErrNoLocation False)) defaultFlags
        \<lparr>Method = ''GET'', reqURL = target ''a'', reqHost = ''a'', reqHeader = []\<rparr>
        (response (answer 200 ErrNoLocation False)))))
   \<and> readResponseBody (plainWorld (\<lambda>r. answer 200 ErrNoLocation False)) (defaultFlags\<lparr>saveOutput := True\<rparr>)
        \<lparr>Method = ''HEAD'', reqURL = target ''a'', reqHost = ''a'', reqHeader = []\<rparr>
        (response (answer 200 ErrNoLocation False)) = ([], Inr [])"
proof -
  let ?req = "\<lparr>Method = ''GET'', reqURL = target ''a'', reqHost = ''a'', reqHeader = []\<rparr>"
  let ?head = "\<lparr>Method = ''HEAD'', reqURL = target ''a'', reqHost = ''a'', reqHeader = []\<rparr>"
  let ?resp = "response (answer 200 ErrNoLocation False)"
  have r: "readResponseBody (plainWorld (\<lambda>r. answer 200 ErrNoLocation False)) defaultFlags ?req ?resp = ([CopiedBody False], Inr ''Body discarded'')"
    by (simp add: readResponseBody_def isRedirect_def answer_def defaultFlags_def plainWorld_def
        CyanString_def)
  have c: "Method ?req \<noteq> ''HEAD'' \<and> \<not> isRedirect ?resp
       \<and> snd (readResponseBody (plainWorld (\<lambda>r. answer 200 ErrNoLocation False)) defaultFlags ?req ?resp) \<noteq> Inl NoRemoteFilename
       \<and> (\<forall>n. snd (readResponseBody (plainWorld (\<lambda>r. answer 200 ErrNoLocation False)) defaultFlags ?req ?resp) \<noteq> Inl (UnableToCreateFile n))"
    by (simp add: r) (simp add: isRedirect_def answer_def)
  have h: "Method ?head = ''HEAD''" by simp
  show ?thesis
    using body_drained_iff [of "plainWorld (\<lambda>r. answer 200 ErrNoLocation False)" defaultFlags ?req ?resp] c
      body_drained_iff [of "plainWorld (\<lambda>r. answer 200 ErrNoLocation False)" "defaultFlags\<lparr>saveOutput := True\<rparr>" ?head ?resp] h
    by blast
qed

text \<open>
  The claim as the specification has it fails where \<open>-O\<close> finds no file name: the
  method is \<open>GET\<close>, the status is 200, and the body is not copied.
\<close>

theorem body_drained_counterexample:
  "\<not> ((\<exists>b. CopiedBody b \<in> set (fst (readResponseBody (plainWorld (\<lambda>r. answer 200 ErrNoLocation False)) (defaultFlags\<lparr>saveOutput := True\<rparr>)
            \<lparr>Method = ''GET'', reqURL = target ''a'', reqHost = ''a'', reqHeader = []\<rparr>
            (response (answer 200 ErrNoLocation False)))))
       \<longleftrightarrow> (Method \<lparr>Method = ''GET'', reqURL = target ''a'', reqHost = ''a'', reqHeader = []\<rparr> \<noteq> ''HEAD''
            \<and> \<not> isRedirect (response (answer 200 ErrNoLocation False))))"
  by (simp add: readResponseBody_def isRedirect_def answer_def defaultFlags_def plainWorld_def
      getFilenameFromHeaders_def headerGet_def target_def RequestURI_def Let_def)

end
